theory Spec2Isabelle
  imports Complex_Main "HOL-Library.Word"
begin

section \<open>The smoker process of semSharedMemSmoker.c\<close>

text \<open>
  The smoker is one of several processes that share a memory region and a semaphore
  set.  Its three operations \<open>waitForIngredients\<close>, \<open>rollingCigarette\<close> and
  \<open>smoke\<close>, and the loop of \<open>main\<close>, are modelled as a small-step machine: the
  program counter names the source line of the next statement, and one step executes
  that statement.  The value returned by the library or IPC primitive called by the
  statement (\<open>semDown\<close>, \<open>semUp\<close>, \<open>shmemDettach\<close>) is an input of the step, so that
  every \<open>== -1\<close> branch of the source is a branch of the model.  What the other
  processes do to the shared region is an input as well (a move of the environment),
  possible only while this process does not hold the mutex.
\<close>

subsection \<open>Shared data\<close>

text \<open>
  Modelled from the spec: the declarations of \<open>probConst.h\<close> and \<open>probDataStruct.h\<close>
  (the status constants, \<open>NUMSMOKERS\<close> and the record \<open>FULL_STAT\<close>), which are not
  among the sources.  By section 3 of the spec the status of a smoker is one of four
  distinct values, the counters are integers, and there are three smokers and three kinds
  of ingredient.  Only the fields of \<open>sh->fSt\<close> that the smoker touches are kept.  The
  counters are unbounded integers here: what is proved below holds of the executions in
  which no counter leaves the range of its C type.  \<open>EXIT_SUCCESS\<close> and \<open>EXIT_FAILURE\<close>
  are the constants of \<open>stdlib.h\<close>.
\<close>

datatype smoker_stat = WAITING_2ING | ROLLING | SMOKING | CLOSING_S

record FULL_STAT =
  smokerStat :: "smoker_stat list"
  nCigarettes :: "int list"
  closing :: bool
  ingredients :: "int list"

definition NUMSMOKERS :: int where
  "NUMSMOKERS = 3"

definition EXIT_SUCCESS :: int where
  "EXIT_SUCCESS = 0"

definition EXIT_FAILURE :: int where
  "EXIT_FAILURE = 1"

text \<open>The three arrays have their declared sizes.\<close>

definition wf_stat :: "FULL_STAT \<Rightarrow> bool" where
  "wf_stat fs \<longleftrightarrow>
     int (length (smokerStat fs)) = NUMSMOKERS \<and>
     int (length (nCigarettes fs)) = NUMSMOKERS \<and>
     length (ingredients fs) = 3"

text \<open>
  \<open>a[i] = v\<close> for a C \<open>int i\<close>: a store outside the array is undefined behaviour, which
  the model reports as \<open>None\<close>.
\<close>

definition store :: "'a list \<Rightarrow> int \<Rightarrow> 'a \<Rightarrow> 'a list option" where
  "store xs i v = (if 0 \<le> i \<and> i < int (length xs) then Some (xs[nat i := v]) else None)"

subsection \<open>Semaphores, events and the local state of the process\<close>

datatype sem = Mutex | Wait2Ings int | WaitCigarette

datatype event =
    SemDown sem
  | SemUp sem
  | SaveState FULL_STAT
  | Usleep nat
  | Perror string
  | ShmemDettach
  | Fprintf string
  | SemConnect int
  | ShmemConnect int
  | ShmemAttach

datatype wait_pc = L154 | L161 | L165 | L171 | L177 | L183 | L197
datatype roll_pc = L215 | L217 | L224 | L228 | L231 | L237
datatype smoke_pc = L255 | L262 | L266 | L270 | L274

datatype pc =
    Wait wait_pc
  | Loop103
  | Roll roll_pc
  | Smoke smoke_pc
  | Main109
  | Exited int
  | UndefinedBehaviour

record proc =
  pc :: pc
  ret :: bool
  rollingTime :: real
  rpos :: nat
  trace :: "event list"

text \<open>
  The pattern \<open>if (op (...) == -1) { perror (msg); exit (EXIT_FAILURE); }\<close>: \<open>r\<close> is the
  value the primitive returned, \<open>ev\<close> the event of its success.
\<close>

definition checked :: "int \<Rightarrow> event \<Rightarrow> string \<Rightarrow> pc \<Rightarrow> proc \<Rightarrow> proc" where
  "checked r ev msg nxt p =
     (if r = -1 then p\<lparr>pc := Exited EXIT_FAILURE, trace := trace p @ [Perror msg]\<rparr>
      else p\<lparr>pc := nxt, trace := trace p @ [ev]\<rparr>)"

definition err_up_operation :: string where
  "err_up_operation = ''error on the up operation for semaphore access (SM)''"

definition err_down_operation :: string where
  "err_down_operation = ''error on the down operation for semaphore access (SM)''"

text \<open>\<open>sh->fSt.st.smokerStat[id] = st; saveState (nFic, &sh->fSt);\<close>\<close>

definition set_stat :: "int \<Rightarrow> smoker_stat \<Rightarrow> pc \<Rightarrow> proc \<times> FULL_STAT \<Rightarrow> proc \<times> FULL_STAT" where
  "set_stat sid st nxt = (\<lambda>(p, fs).
     case store (smokerStat fs) sid st of
       None \<Rightarrow> (p\<lparr>pc := UndefinedBehaviour\<rparr>, fs)
     | Some a \<Rightarrow>
         (let fs' = fs\<lparr>smokerStat := a\<rparr>
          in (p\<lparr>pc := nxt, trace := trace p @ [SaveState fs']\<rparr>, fs')))"

subsection \<open>waitForIngredients\<close>

text \<open>\<open>for (int n = 0; n < 3; n++) if (id != n) sh->fSt.ingredients[n] -= 1;\<close>\<close>

definition consume :: "int \<Rightarrow> int list \<Rightarrow> int list" where
  "consume sid xs = fold (\<lambda>n ys. if sid \<noteq> int n then ys[n := ys ! n - 1] else ys) [0..<3] xs"

fun waitForIngredients :: "int \<Rightarrow> int \<Rightarrow> wait_pc \<Rightarrow> proc \<times> FULL_STAT \<Rightarrow> proc \<times> FULL_STAT" where
  "waitForIngredients r sid L154 (p, fs) =
     (checked r (SemDown Mutex) err_up_operation (Wait L161) (p\<lparr>ret := True\<rparr>), fs)"
| "waitForIngredients r sid L161 (p, fs) = set_stat sid WAITING_2ING (Wait L165) (p, fs)"
| "waitForIngredients r sid L165 (p, fs) = (checked r (SemUp Mutex) err_down_operation (Wait L171) p, fs)"
| "waitForIngredients r sid L171 (p, fs) =
     (if 0 \<le> sid \<and> sid < NUMSMOKERS
      then (checked r (SemDown (Wait2Ings sid)) err_up_operation (Wait L177) p, fs)
      else (p\<lparr>pc := UndefinedBehaviour\<rparr>, fs))"
| "waitForIngredients r sid L177 (p, fs) = (checked r (SemDown Mutex) err_up_operation (Wait L183) p, fs)"
| "waitForIngredients r sid L183 (p, fs) =
     (if closing fs
      then set_stat sid CLOSING_S (Wait L197) (p\<lparr>ret := False\<rparr>, fs)
      else (let fs' = fs\<lparr>ingredients := consume sid (ingredients fs)\<rparr>
            in (p\<lparr>pc := Wait L197, trace := trace p @ [SaveState fs']\<rparr>, fs')))"
| "waitForIngredients r sid L197 (p, fs) = (checked r (SemUp Mutex) err_down_operation Loop103 p, fs)"

subsection \<open>normalRand\<close>

text \<open>
  \<open>random ()\<close> is a library function with a hidden state: \<open>rnd k\<close> is the value its
  \<open>k\<close>-th call returns, and the process counts its calls.  \<open>RAND_MAX\<close> is the constant
  of \<open>stdlib.h\<close>.  The \<open>double\<close> arithmetic of the source is modelled in the reals.
\<close>

definition RAND_MAX :: int where
  "RAND_MAX = 2147483647"

function normalRand_loop :: "(nat \<Rightarrow> int) \<Rightarrow> nat \<Rightarrow> real \<times> nat \<Rightarrow> real \<times> nat" where
  "normalRand_loop rnd i (r, k) =
     (if i < 12
      then normalRand_loop rnd (i + 1) (r + real_of_int (rnd k) / (real_of_int RAND_MAX + 1.0), k + 1)
      else (r, k))"
  by pat_completeness auto
termination
  by (relation "measure (\<lambda>(rnd, i, rk). 12 - i)") auto

definition normalRand :: "(nat \<Rightarrow> int) \<Rightarrow> real \<Rightarrow> nat \<Rightarrow> real \<times> nat" where
  "normalRand rnd stddev k =
     (let (r, k') = normalRand_loop rnd 0 (0.0, k) in ((r - 6.0) * stddev, k'))"

subsection \<open>rollingCigarette and smoke\<close>

text \<open>\<open>if (t > 0.0) usleep (t);\<close> where the \<open>double\<close> is converted to a whole number
  of microseconds.\<close>

definition sleep :: "real \<Rightarrow> proc \<Rightarrow> proc" where
  "sleep t p = (if t > 0.0 then p\<lparr>trace := trace p @ [Usleep (nat \<lfloor>t\<rfloor>)]\<rparr> else p)"

fun rollingCigarette ::
  "(nat \<Rightarrow> int) \<Rightarrow> int \<Rightarrow> int \<Rightarrow> roll_pc \<Rightarrow> proc \<times> FULL_STAT \<Rightarrow> proc \<times> FULL_STAT" where
  "rollingCigarette rnd r sid L215 (p, fs) =
     (let (x, k) = normalRand rnd 30.0 (rpos p)
      in (p\<lparr>pc := Roll L217, rollingTime := 100.0 + x, rpos := k\<rparr>, fs))"
| "rollingCigarette rnd r sid L217 (p, fs) =
     (checked r (SemDown Mutex) err_up_operation (Roll L224) p, fs)"
| "rollingCigarette rnd r sid L224 (p, fs) = set_stat sid ROLLING (Roll L228) (p, fs)"
| "rollingCigarette rnd r sid L228 (p, fs) = ((sleep (rollingTime p) p)\<lparr>pc := Roll L231\<rparr>, fs)"
| "rollingCigarette rnd r sid L231 (p, fs) = (checked r (SemUp Mutex) err_down_operation (Roll L237) p, fs)"
| "rollingCigarette rnd r sid L237 (p, fs) =
     (checked r (SemUp WaitCigarette) err_up_operation (Smoke L255) p, fs)"

fun smoke ::
  "(nat \<Rightarrow> int) \<Rightarrow> int \<Rightarrow> int \<Rightarrow> smoke_pc \<Rightarrow> proc \<times> FULL_STAT \<Rightarrow> proc \<times> FULL_STAT" where
  "smoke rnd r sid L255 (p, fs) = (checked r (SemDown Mutex) err_up_operation (Smoke L262) p, fs)"
| "smoke rnd r sid L262 (p, fs) = set_stat sid SMOKING (Smoke L266) (p, fs)"
| "smoke rnd r sid L266 (p, fs) =
     (let (x, k) = normalRand rnd 30.0 (rpos p)
      in ((sleep (100.0 + x) p)\<lparr>pc := Smoke L270, rpos := k\<rparr>, fs))"
| "smoke rnd r sid L270 (p, fs) =
     (if 0 \<le> sid \<and> sid < int (length (nCigarettes fs))
      then (let fs' = fs\<lparr>nCigarettes := (nCigarettes fs)[nat sid := nCigarettes fs ! nat sid + 1]\<rparr>
            in (p\<lparr>pc := Smoke L274, trace := trace p @ [SaveState fs']\<rparr>, fs'))
      else (p\<lparr>pc := UndefinedBehaviour\<rparr>, fs))"
| "smoke rnd r sid L274 (p, fs) = (checked r (SemUp Mutex) err_down_operation (Wait L154) p, fs)"

subsection \<open>The life cycle of main\<close>

text \<open>
  \<open>while (waitForIngredients (n)) { rollingCigarette (n); smoke (n); }\<close> followed by
  the unmapping of the shared region.  The process starts the loop at \<open>Wait L154\<close>, the
  entry of the call in the loop condition; \<open>Loop103\<close> tests the value returned.
\<close>

definition msg_detach :: string where
  "msg_detach = ''error on unmapping the shared region off the process address space''"

fun smoker_step :: "(nat \<Rightarrow> int) \<Rightarrow> int \<Rightarrow> int \<Rightarrow> proc \<times> FULL_STAT \<Rightarrow> proc \<times> FULL_STAT" where
  "smoker_step rnd r sid (p, fs) =
     (case pc p of
        Wait l \<Rightarrow> waitForIngredients r sid l (p, fs)
      | Loop103 \<Rightarrow> (p\<lparr>pc := (if ret p then Roll L215 else Main109)\<rparr>, fs)
      | Roll l \<Rightarrow> rollingCigarette rnd r sid l (p, fs)
      | Smoke l \<Rightarrow> smoke rnd r sid l (p, fs)
      | Main109 \<Rightarrow> (checked r ShmemDettach msg_detach (Exited EXIT_SUCCESS) p, fs)
      | Exited c \<Rightarrow> (p, fs)
      | UndefinedBehaviour \<Rightarrow> (p, fs))"

text \<open>
  The process holds the mutex from the return of \<open>semDown (semgid, sh->mutex)\<close> to the
  return of the next \<open>semUp (semgid, sh->mutex)\<close>.
\<close>

fun holds_mutex :: "pc \<Rightarrow> bool" where
  "holds_mutex (Wait l) = (l = L161 \<or> l = L165 \<or> l = L183 \<or> l = L197)"
| "holds_mutex (Roll l) = (l = L224 \<or> l = L228 \<or> l = L231)"
| "holds_mutex (Smoke l) = (l = L262 \<or> l = L266 \<or> l = L270 \<or> l = L274)"
| "holds_mutex Loop103 = False"
| "holds_mutex Main109 = False"
| "holds_mutex (Exited c) = False"
| "holds_mutex UndefinedBehaviour = False"

text \<open>
  What the other processes do to the shared region is a sequence of writes to its cells.
  The arrays keep their sizes: a write outside an array is not a write to the region.
\<close>

datatype cell_write =
    WriteStat nat smoker_stat
  | WriteCigarettes nat int
  | WriteClosing bool
  | WriteIngredients nat int

fun write_cell :: "cell_write \<Rightarrow> FULL_STAT \<Rightarrow> FULL_STAT" where
  "write_cell (WriteStat i v) fs = fs\<lparr>smokerStat := (smokerStat fs)[i := v]\<rparr>"
| "write_cell (WriteCigarettes i v) fs = fs\<lparr>nCigarettes := (nCigarettes fs)[i := v]\<rparr>"
| "write_cell (WriteClosing b) fs = fs\<lparr>closing := b\<rparr>"
| "write_cell (WriteIngredients i v) fs = fs\<lparr>ingredients := (ingredients fs)[i := v]\<rparr>"

definition env_writes :: "cell_write list \<Rightarrow> FULL_STAT \<Rightarrow> FULL_STAT" where
  "env_writes ws fs = fold write_cell ws fs"

text \<open>
  An execution of the process in its environment: \<open>Ret r\<close> is a step of the process, in
  which the primitive it calls (if it calls one) returns \<open>r\<close>; \<open>Env ws\<close> is what the
  other processes write in the meantime, which the mutex excludes while the process is
  in a critical region.
\<close>

datatype move = Ret int | Env "cell_write list"

fun run :: "(nat \<Rightarrow> int) \<Rightarrow> int \<Rightarrow> move list \<Rightarrow> proc \<times> FULL_STAT \<Rightarrow> (proc \<times> FULL_STAT) option" where
  "run rnd sid [] c = Some c"
| "run rnd sid (Ret r # ms) c = run rnd sid ms (smoker_step rnd r sid c)"
| "run rnd sid (Env ws # ms) (p, fs) =
     (if holds_mutex (pc p) then None else run rnd sid ms (p, env_writes ws fs))"

text \<open>The snapshots that \<open>saveState\<close> has logged, in order.\<close>

fun snapshots :: "event list \<Rightarrow> FULL_STAT list" where
  "snapshots [] = []"
| "snapshots (SaveState s # es) = s # snapshots es"
| "snapshots (e # es) = snapshots es"

text \<open>
  Whether some \<open>usleep\<close> of a sequence of events happens between a \<open>semDown\<close> and the next
  \<open>semUp\<close> of the mutex; \<open>h\<close> tells whether the mutex is held at the start.
\<close>

fun sleeps_holding :: "bool \<Rightarrow> event list \<Rightarrow> bool" where
  "sleeps_holding h [] = False"
| "sleeps_holding h (SemDown s # es) = sleeps_holding (h \<or> s = Mutex) es"
| "sleeps_holding h (SemUp s # es) = sleeps_holding (h \<and> s \<noteq> Mutex) es"
| "sleeps_holding h (Usleep t # es) = (h \<or> sleeps_holding h es)"
| "sleeps_holding h (e # es) = sleeps_holding h es"

text \<open>A process about to start its life cycle, and a shared region, for the examples.\<close>

definition proc0 :: proc where
  "proc0 = \<lparr>pc = Wait L154, ret = False, rollingTime = 0, rpos = 0, trace = []\<rparr>"

definition stat0 :: FULL_STAT where
  "stat0 = \<lparr>smokerStat = [WAITING_2ING, WAITING_2ING, WAITING_2ING], nCigarettes = [0, 0, 0],
     closing = False, ingredients = [0, 0, 0]\<rparr>"

text \<open>
  Smoker 1 at the moment it has been woken: its first critical region is over and
  \<open>semDown (semgid, sh->wait2Ings[1])\<close> has returned.
\<close>

definition woken1 :: proc where
  "woken1 = \<lparr>pc = Wait L177, ret = True, rollingTime = 0, rpos = 0,
     trace = [SemDown Mutex, SaveState stat0, SemUp Mutex, SemDown (Wait2Ings 1)]\<rparr>"

text \<open>A random source whose every draw is \<open>(RAND_MAX + 1) / 2\<close>.\<close>

definition draws_half :: "nat \<Rightarrow> int" where
  "draws_half k = 1073741824"

text \<open>
  Smoker 1 when \<open>waitForIngredients (1)\<close> has returned true and the loop test has
  passed, and the same smoker when \<open>rollingCigarette (1)\<close> has returned, every draw of
  \<open>random ()\<close> being \<open>(RAND_MAX + 1) / 2\<close>.
\<close>

definition rolling1 :: proc where
  "rolling1 = \<lparr>pc = Roll L215, ret = True, rollingTime = 0, rpos = 0,
     trace = [SemDown Mutex, SaveState stat0, SemUp Mutex, SemDown (Wait2Ings 1),
              SemDown Mutex, SaveState stat0, SemUp Mutex]\<rparr>"

definition rolled1 :: proc where
  "rolled1 = \<lparr>pc = Smoke L255, ret = True, rollingTime = 100, rpos = 12,
     trace = [SemDown Mutex, SaveState stat0, SemUp Mutex, SemDown (Wait2Ings 1),
              SemDown Mutex, SaveState stat0, SemUp Mutex,
              SemDown Mutex, SaveState (stat0\<lparr>smokerStat := [WAITING_2ING, ROLLING, WAITING_2ING]\<rparr>),
              Usleep 100, SemUp Mutex, SemUp WaitCigarette]\<rparr>"

text \<open>
  What the log of the smoker shows when it is in its loop body: the last snapshot it
  has saved has it \<open>ROLLING\<close> from line 228 to line 262, and the last two have it
  \<open>ROLLING\<close> and then \<open>SMOKING\<close> at lines 266 and 270.
\<close>

definition stats_rev :: "int \<Rightarrow> event list \<Rightarrow> smoker_stat list" where
  "stats_rev sid es = rev (map (\<lambda>s. smokerStat s ! nat sid) (snapshots es))"

fun cycle_inv :: "int \<Rightarrow> proc \<Rightarrow> bool" where
  "cycle_inv sid p =
     (case pc p of
        Roll l \<Rightarrow> (l = L228 \<or> l = L231 \<or> l = L237 \<longrightarrow> take 1 (stats_rev sid (trace p)) = [ROLLING])
      | Smoke l \<Rightarrow>
          (if l = L255 \<or> l = L262 then take 1 (stats_rev sid (trace p)) = [ROLLING]
           else l = L266 \<or> l = L270 \<longrightarrow> take 2 (stats_rev sid (trace p)) = [SMOKING, ROLLING])
      | _ \<Rightarrow> True)"

text \<open>Smoker 1 when \<open>smoke (1)\<close> has returned, after \<open>rolled1\<close>.\<close>

definition smoked1 :: proc where
  "smoked1 = \<lparr>pc = Wait L154, ret = True, rollingTime = 100, rpos = 24,
     trace = [SemDown Mutex, SaveState stat0, SemUp Mutex, SemDown (Wait2Ings 1),
              SemDown Mutex, SaveState stat0, SemUp Mutex,
              SemDown Mutex, SaveState (stat0\<lparr>smokerStat := [WAITING_2ING, ROLLING, WAITING_2ING]\<rparr>),
              Usleep 100, SemUp Mutex, SemUp WaitCigarette,
              SemDown Mutex, SaveState (stat0\<lparr>smokerStat := [WAITING_2ING, SMOKING, WAITING_2ING]\<rparr>),
              Usleep 100,
              SaveState (stat0\<lparr>smokerStat := [WAITING_2ING, SMOKING, WAITING_2ING], nCigarettes := [0, 1, 0]\<rparr>),
              SemUp Mutex]\<rparr>"

text \<open>
  Whether the last snapshot that the smoker has saved shows the closing flag set and the
  smoker in its terminal status.
\<close>

definition closing_logged :: "int \<Rightarrow> event list \<Rightarrow> bool" where
  "closing_logged sid es =
     (case rev (snapshots es) of [] \<Rightarrow> False | s # ss \<Rightarrow> closing s \<and> smokerStat s ! nat sid = CLOSING_S)"

text \<open>
  What holds of the smoker on its way through \<open>waitForIngredients\<close> and out of the loop:
  \<open>ret\<close> is true up to the test of the closing flag, and afterwards it is false only if
  the terminal snapshot has been logged.
\<close>

fun exit_inv :: "int \<Rightarrow> proc \<Rightarrow> bool" where
  "exit_inv sid p =
     (case pc p of
        Wait l \<Rightarrow> (if l = L154 then True
                   else if l = L197 then ret p \<or> closing_logged sid (trace p)
                   else ret p)
      | Loop103 \<Rightarrow> ret p \<or> closing_logged sid (trace p)
      | Main109 \<Rightarrow> closing_logged sid (trace p)
      | Exited c \<Rightarrow> (c = EXIT_SUCCESS \<longrightarrow> closing_logged sid (trace p))
      | _ \<Rightarrow> True)"

text \<open>Smoker 1 at the end of its process, after it was woken with the closing flag set.\<close>

definition exited1 :: proc where
  "exited1 = \<lparr>pc = Exited 0, ret = False, rollingTime = 0, rpos = 0,
     trace = [SemDown Mutex, SaveState stat0, SemUp Mutex, SemDown (Wait2Ings 1),
              SemDown Mutex,
              SaveState (stat0\<lparr>closing := True, smokerStat := [WAITING_2ING, CLOSING_S, WAITING_2ING]\<rparr>),
              SemUp Mutex, ShmemDettach]\<rparr>"

text \<open>
  The shutdown authority setting the closing flag (or not) among the moves of the
  environment, and an event as it reads when the closing flag of a logged snapshot is
  left out.
\<close>

definition set_closing :: "bool \<Rightarrow> cell_write list" where
  "set_closing b = (if b then [WriteClosing True] else [])"

fun hide_closing :: "event \<Rightarrow> event" where
  "hide_closing (SaveState s) = SaveState (s\<lparr>closing := False\<rparr>)"
| "hide_closing e = e"

definition same_but_closing :: "proc \<times> FULL_STAT \<Rightarrow> proc \<times> FULL_STAT \<Rightarrow> bool" where
  "same_but_closing c c' \<longleftrightarrow>
     pc (fst c) = pc (fst c') \<and> ret (fst c) = ret (fst c') \<and>
     rollingTime (fst c) = rollingTime (fst c') \<and> rpos (fst c) = rpos (fst c') \<and>
     map hide_closing (trace (fst c)) = map hide_closing (trace (fst c')) \<and>
     (snd c)\<lparr>closing := False\<rparr> = (snd c')\<lparr>closing := False\<rparr>"

subsection \<open>The start of main\<close>

text \<open>
  Lines 54 to 99, without the redirection of \<open>stderr\<close>, the copy of the name of the log
  file and the seeding of the random generator.  \<open>strtol\<close> is a library function: what it returns for \<open>argv[1]\<close> and
  \<open>argv[3]\<close> (a \<open>long\<close>, 64 bits wide here) and the rest of the string it leaves at
  \<open>tinp\<close> are inputs, as are the values returned by \<open>semConnect\<close>, \<open>shmemConnect\<close> and
  \<open>shmemAttach\<close>.  The result of \<open>strtol\<close> is converted to \<open>unsigned int\<close> and stored
  in the \<open>int\<close> variable \<open>n\<close>, and \<open>n >= NUMSMOKERS\<close> compares two values of type
  \<open>int\<close>.  The result is the exit status, or the smoker id with which the life cycle
  starts.
\<close>

record cmdline =
  argc :: int
  id_value :: "64 word"
  id_rest :: string
  key_value :: "64 word"
  key_rest :: string

definition to_int :: "64 word \<Rightarrow> int" where
  "to_int v = sint (ucast v :: 32 word)"

definition main_start :: "cmdline \<Rightarrow> int \<Rightarrow> int \<Rightarrow> int \<Rightarrow> event list \<times> (int + int)" where
  "main_start a rsem rshm ratt =
     (if argc a \<noteq> 5
      then ([Fprintf ''Number of parameters is incorrect!''], Inl EXIT_FAILURE)
      else (let n = to_int (id_value a) in
        if id_rest a \<noteq> [] \<or> n \<ge> NUMSMOKERS
        then ([Fprintf ''Smoker process identification is wrong!''], Inl EXIT_FAILURE)
        else (let key = to_int (key_value a) in
          if key_rest a \<noteq> []
          then ([Fprintf ''Error on the access key communication!''], Inl EXIT_FAILURE)
          else if rsem = -1
          then ([SemConnect key, Perror ''error on connecting to the semaphore set''],
                Inl EXIT_FAILURE)
          else if rshm = -1
          then ([SemConnect key, ShmemConnect key,
                 Perror ''error on connecting to the shared memory region''], Inl EXIT_FAILURE)
          else if ratt = -1
          then ([SemConnect key, ShmemConnect key, ShmemAttach,
                 Perror ''error on mapping the shared region on the process address space''],
                Inl EXIT_FAILURE)
          else ([SemConnect key, ShmemConnect key, ShmemAttach], Inr n))))"

subsection \<open>The simulation\<close>

text \<open>
  The three smokers run together with the agent, which supplies the ingredients.  The
  semaphore primitives, the agent (with its watchers) and the process that sets up the
  shared region are not among the sources: they are modelled from the spec.
\<close>

text \<open>
  Modelled from the spec: the semaphore set and the operations of \<open>semaphore.h\<close>.  A
  semaphore is a counter with an atomic decrement that blocks at zero and an atomic
  increment (sections 3 and 6): one mutex, one wake-up semaphore for each smoker, and
  the semaphore on which the agent waits for a cigarette.
\<close>

record semaphores =
  mutex :: nat
  wait2Ings :: "nat list"
  waitCigarette :: nat

fun sem_down :: "sem \<Rightarrow> semaphores \<Rightarrow> semaphores option" where
  "sem_down Mutex ss = (if mutex ss = 0 then None else Some (ss\<lparr>mutex := mutex ss - 1\<rparr>))"
| "sem_down (Wait2Ings i) ss =
     (if 0 \<le> i \<and> nat i < length (wait2Ings ss) \<and> 0 < wait2Ings ss ! nat i
      then Some (ss\<lparr>wait2Ings := (wait2Ings ss)[nat i := wait2Ings ss ! nat i - 1]\<rparr>)
      else None)"
| "sem_down WaitCigarette ss =
     (if waitCigarette ss = 0 then None else Some (ss\<lparr>waitCigarette := waitCigarette ss - 1\<rparr>))"

fun sem_up :: "sem \<Rightarrow> semaphores \<Rightarrow> semaphores" where
  "sem_up Mutex ss = ss\<lparr>mutex := mutex ss + 1\<rparr>"
| "sem_up (Wait2Ings i) ss =
     (if 0 \<le> i then ss\<lparr>wait2Ings := (wait2Ings ss)[nat i := wait2Ings ss ! nat i + 1]\<rparr> else ss)"
| "sem_up WaitCigarette ss = ss\<lparr>waitCigarette := waitCigarette ss + 1\<rparr>"

text \<open>The effect on the semaphore set of the events of a step; \<open>None\<close> when the step blocks.\<close>

fun sem_effects :: "event list \<Rightarrow> semaphores \<Rightarrow> semaphores option" where
  "sem_effects [] ss = Some ss"
| "sem_effects (SemDown x # es) ss =
     (case sem_down x ss of None \<Rightarrow> None | Some ss' \<Rightarrow> sem_effects es ss')"
| "sem_effects (SemUp x # es) ss = sem_effects es (sem_up x ss)"
| "sem_effects (e # es) ss = sem_effects es ss"

text \<open>The shared region, the semaphore set and the three smoker processes.\<close>

record system =
  shm :: FULL_STAT
  semset :: semaphores
  smokers :: "proc list"

text \<open>
  Modelled from the spec: the agent, which is not among the sources.  It increments the
  counts of the two ingredients that smoker \<open>k\<close> lacks and signals that smoker's wake-up
  semaphore (\<open>Supply k\<close>, sections 2 and 3, scenario 1); it consumes the cigarette
  semaphore (\<open>Collect\<close>); at shutdown it sets the closing flag (\<open>Close\<close>), after which
  no ingredient is supplied any more and the smokers are signalled with nothing supplied
  (\<open>Wake k\<close>, section 5, scenario 2).  The agent writes the shared region only while
  nobody holds the mutex.
\<close>

datatype action = Smoker nat int | Supply nat | Collect | Close | Wake nat

definition add_ingredients :: "nat \<Rightarrow> int list \<Rightarrow> int list" where
  "add_ingredients k xs = fold (\<lambda>n ys. if n \<noteq> k then ys[n := ys ! n + 1] else ys) [0..<3] xs"

text \<open>
  \<open>Smoker k r\<close> is a step of the process of smoker \<open>k\<close>, as \<open>smoker_step\<close> defines it, in
  which the primitive called returns \<open>r\<close>; the step is possible only if its semaphore
  operation does not block.  \<open>rnd k\<close> is the random source of that process.
\<close>

fun sys_step :: "(nat \<Rightarrow> nat \<Rightarrow> int) \<Rightarrow> action \<Rightarrow> system \<Rightarrow> system option" where
  "sys_step rnd (Smoker k r) s =
     (if k < length (smokers s)
      then (case smoker_step (rnd k) r (int k) (smokers s ! k, shm s) of (p', fs') \<Rightarrow>
              (case sem_effects (drop (length (trace (smokers s ! k))) (trace p')) (semset s) of
                 None \<Rightarrow> None
               | Some ss \<Rightarrow> Some (s\<lparr>shm := fs', semset := ss, smokers := (smokers s)[k := p']\<rparr>)))
      else None)"
| "sys_step rnd (Supply k) s =
     (if k < 3 \<and> \<not> closing (shm s) \<and> 0 < mutex (semset s)
      then Some (s\<lparr>shm := (shm s)\<lparr>ingredients := add_ingredients k (ingredients (shm s))\<rparr>,
                   semset := sem_up (Wait2Ings (int k)) (semset s)\<rparr>)
      else None)"
| "sys_step rnd Collect s =
     (case sem_down WaitCigarette (semset s) of None \<Rightarrow> None | Some ss \<Rightarrow> Some (s\<lparr>semset := ss\<rparr>))"
| "sys_step rnd Close s =
     (if 0 < mutex (semset s) then Some (s\<lparr>shm := (shm s)\<lparr>closing := True\<rparr>\<rparr>) else None)"
| "sys_step rnd (Wake k) s =
     (if k < 3 \<and> closing (shm s)
      then Some (s\<lparr>semset := sem_up (Wait2Ings (int k)) (semset s)\<rparr>)
      else None)"

fun sys_run :: "(nat \<Rightarrow> nat \<Rightarrow> int) \<Rightarrow> action list \<Rightarrow> system \<Rightarrow> system option" where
  "sys_run rnd [] s = Some s"
| "sys_run rnd (a # as) s = (case sys_step rnd a s of None \<Rightarrow> None | Some s' \<Rightarrow> sys_run rnd as s')"

text \<open>
  Modelled from the spec: the state in which the simulation starts, set up by a process
  that is not among the sources.  The closing flag is unset, no count is negative, no
  wake-up signal is pending and every smoker is about to start its loop.
\<close>

definition initial :: "system \<Rightarrow> bool" where
  "initial s \<longleftrightarrow>
     wf_stat (shm s) \<and> \<not> closing (shm s) \<and> list_all (\<lambda>x. 0 \<le> x) (ingredients (shm s)) \<and>
     wait2Ings (semset s) = [0, 0, 0] \<and>
     map pc (smokers s) = [Wait L154, Wait L154, Wait L154]"

definition system0 :: system where
  "system0 = \<lparr>shm = stat0, semset = \<lparr>mutex = 1, wait2Ings = [0, 0, 0], waitCigarette = 0\<rparr>,
     smokers = [proc0, proc0, proc0]\<rparr>"

text \<open>
  The wake-up signals of smoker \<open>k\<close> that have been sent and not yet acted upon: those
  pending in its semaphore, and the one it has taken when it stands between its wake-up
  and the test of the closing flag.  While the closing flag is unset, each count covers
  the signals of the two smokers that consume it.
\<close>

definition tok :: "system \<Rightarrow> nat \<Rightarrow> nat" where
  "tok s k = wait2Ings (semset s) ! k +
     (if pc (smokers s ! k) = Wait L177 \<or> pc (smokers s ! k) = Wait L183 then 1 else 0)"

definition supplied :: "system \<Rightarrow> bool" where
  "supplied s \<longleftrightarrow>
     wf_stat (shm s) \<and> length (smokers s) = 3 \<and> length (wait2Ings (semset s)) = 3 \<and>
     0 \<le> ingredients (shm s) ! 0 \<and> 0 \<le> ingredients (shm s) ! 1 \<and> 0 \<le> ingredients (shm s) ! 2 \<and>
     (\<not> closing (shm s) \<longrightarrow>
        int (tok s 1 + tok s 2) \<le> ingredients (shm s) ! 0 \<and>
        int (tok s 0 + tok s 2) \<le> ingredients (shm s) ! 1 \<and>
        int (tok s 0 + tok s 1) \<le> ingredients (shm s) ! 2)"

section \<open>Properties\<close>

subsection \<open>Auxiliary facts\<close>

lemma consume_length: "length (consume sid xs) = length xs"
  by (simp add: consume_def numeral_3_eq_3)

lemma consume_eq:
  assumes "length xs = 3"
  shows "consume sid xs =
     [if sid = 0 then xs ! 0 else xs ! 0 - 1, if sid = 1 then xs ! 1 else xs ! 1 - 1,
      if sid = 2 then xs ! 2 else xs ! 2 - 1]"
proof -
  from assms obtain a b c where "xs = [a, b, c]"
    by (cases xs; simp) (metis (no_types) Suc_length_conv length_0_conv numeral_2_eq_2)
  then show ?thesis by (simp add: consume_def numeral_3_eq_3)
qed

lemma consume_nth:
  assumes "length xs = 3" and "j < 3"
  shows "consume sid xs ! j = (if int j = sid then xs ! j else xs ! j - 1)"
proof -
  from assms(2) consider "j = 0" | "j = 1" | "j = 2" by linarith
  then show ?thesis by cases (auto simp: consume_eq [OF assms(1)])
qed

lemma wf_write_cell: "wf_stat (write_cell w fs) = wf_stat fs"
  by (cases w) (simp_all add: wf_stat_def)

lemma wf_env_writes: "wf_stat (env_writes ws fs) = wf_stat fs"
  unfolding env_writes_def by (induction ws arbitrary: fs) (simp_all add: wf_write_cell)

text \<open>\<open>bool ret = true;\<close> of line 152 still holds when the smoker is woken.\<close>

lemma woken_ret:
  assumes "run rnd sid [Ret 0, Ret 0, Ret 0, Ret 0, Env ws] (p\<lparr>pc := Wait L154\<rparr>, fs0) = Some (q, fs)"
    and "pc q = Wait L177"
  shows "ret q"
  using assms
  by (auto simp: checked_def set_stat_def store_def Let_def split: if_splits option.splits)

lemma wait_return:
  assumes "pc q = Wait L177" and "\<not> closing fs"
  shows "run rnd sid [Ret 0, Ret 0, Ret 0] (q, fs) =
     Some (q\<lparr>pc := Loop103,
             trace := trace q @ [SemDown Mutex,
               SaveState (fs\<lparr>ingredients := consume sid (ingredients fs)\<rparr>), SemUp Mutex]\<rparr>,
           fs\<lparr>ingredients := consume sid (ingredients fs)\<rparr>)"
  using assms by (simp add: checked_def Let_def)

lemma wait_return_closing:
  assumes "pc q = Wait L177" and "closing fs" and "0 \<le> sid"
    and "sid < int (length (smokerStat fs))"
  shows "run rnd sid [Ret 0, Ret 0, Ret 0] (q, fs) =
     Some (q\<lparr>pc := Loop103, ret := False,
             trace := trace q @ [SemDown Mutex,
               SaveState (fs\<lparr>smokerStat := (smokerStat fs)[nat sid := CLOSING_S]\<rparr>), SemUp Mutex]\<rparr>,
           fs\<lparr>smokerStat := (smokerStat fs)[nat sid := CLOSING_S]\<rparr>)"
  using assms by (simp add: checked_def set_stat_def store_def Let_def)

subsection \<open>waitForIngredients after the wake-up\<close>

text \<open>
  In the three theorems of this subsection, \<open>(q, fs)\<close> is the smoker and the shared
  region at the moment the smoker has been woken: it has entered \<open>waitForIngredients\<close>
  (line 154), announced its state in the first critical region, and its
  \<open>semDown (semgid, sh->wait2Ings[id])\<close> has returned; \<open>ws\<close> is what the other
  processes wrote while it was blocked.  The three moves \<open>Ret 0\<close> that follow are the
  second critical region (lines 177 to 197) with every semaphore operation succeeding,
  up to the return to the loop of \<open>main\<close>.
\<close>

text \<open>
  C1: for every smoker id, when \<open>waitForIngredients (id)\<close> is woken and the closing flag
  is false, it decrements the count of each of the two ingredient kinds other than
  \<open>id\<close> by exactly one, leaves the count of kind \<open>id\<close> (and every other field of the
  shared region) unchanged, and returns true.
\<close>

theorem waitForIngredients_proceed:
  assumes "0 \<le> sid" and "sid < NUMSMOKERS"
    and "run rnd sid [Ret 0, Ret 0, Ret 0, Ret 0, Env ws] (p\<lparr>pc := Wait L154\<rparr>, fs0) = Some (q, fs)"
    and "pc q = Wait L177" and "wf_stat fs" and "\<not> closing fs"
  shows "\<exists>p' xs. run rnd sid [Ret 0, Ret 0, Ret 0] (q, fs) = Some (p', fs\<lparr>ingredients := xs\<rparr>) \<and>
           pc p' = Loop103 \<and> ret p' \<and> length xs = 3 \<and>
           xs ! nat sid = ingredients fs ! nat sid \<and>
           (\<forall>j<3. int j \<noteq> sid \<longrightarrow> xs ! j = ingredients fs ! j - 1)"
proof -
  have r: "ret q" using assms(3,4) by (rule woken_ret)
  have l: "length (ingredients fs) = 3" using assms(5) by (simp add: wf_stat_def)
  have n: "nat sid < 3" using assms(1,2) by (simp add: NUMSMOKERS_def)
  let ?xs = "consume sid (ingredients fs)"
  have "length ?xs = 3" by (simp add: consume_length l)
  moreover have "?xs ! nat sid = ingredients fs ! nat sid"
    using assms(1) by (simp add: consume_nth [OF l n])
  moreover have "\<forall>j<3. int j \<noteq> sid \<longrightarrow> ?xs ! j = ingredients fs ! j - 1"
    by (simp add: consume_nth [OF l])
  ultimately show ?thesis
    using wait_return [OF assms(4,6), of rnd sid] r by auto
qed

theorem waitForIngredients_proceed_witness:
  "\<exists>p'. run (\<lambda>k. 0) 1 [Ret 0, Ret 0, Ret 0] (woken1, stat0\<lparr>ingredients := [1, 0, 1]\<rparr>) = Some (p', stat0)
      \<and> pc p' = Loop103 \<and> ret p'"
  using waitForIngredients_proceed [of 1 "\<lambda>k. 0" "[WriteIngredients 0 1, WriteIngredients 2 1]"
      proc0 stat0 woken1 "stat0\<lparr>ingredients := [1, 0, 1]\<rparr>"]
  by (simp add: proc0_def stat0_def woken1_def NUMSMOKERS_def wf_stat_def checked_def
      set_stat_def store_def env_writes_def consume_def numeral_3_eq_3 Let_def)

text \<open>
  C2: for every smoker id, when \<open>waitForIngredients (id)\<close> is woken and the closing flag
  is true, it sets \<open>smokerStat[id]\<close> to \<open>CLOSING_S\<close> and returns false; no ingredient
  count and no other cell of the shared region changes, and the one snapshot it logs is
  that of the terminal status.
\<close>

theorem waitForIngredients_closing:
  assumes "0 \<le> sid" and "sid < NUMSMOKERS"
    and "run rnd sid [Ret 0, Ret 0, Ret 0, Ret 0, Env ws] (p\<lparr>pc := Wait L154\<rparr>, fs0) = Some (q, fs)"
    and "pc q = Wait L177" and "wf_stat fs" and "closing fs"
  shows "\<exists>p' fs'. run rnd sid [Ret 0, Ret 0, Ret 0] (q, fs) = Some (p', fs') \<and>
           pc p' = Loop103 \<and> \<not> ret p' \<and>
           fs' = fs\<lparr>smokerStat := (smokerStat fs)[nat sid := CLOSING_S]\<rparr> \<and>
           smokerStat fs' ! nat sid = CLOSING_S \<and>
           (\<forall>j<3. int j \<noteq> sid \<longrightarrow> smokerStat fs' ! j = smokerStat fs ! j) \<and>
           ingredients fs' = ingredients fs \<and> nCigarettes fs' = nCigarettes fs \<and> closing fs' \<and>
           snapshots (drop (length (trace q)) (trace p')) = [fs']"
proof -
  have l: "sid < int (length (smokerStat fs))" using assms(2,5) by (simp add: wf_stat_def)
  have "\<forall>j<3. int j \<noteq> sid \<longrightarrow> (smokerStat fs)[nat sid := CLOSING_S] ! j = smokerStat fs ! j"
    using assms(1) by auto
  then show ?thesis
    using wait_return_closing [OF assms(4,6,1) l, of rnd] assms(1,6) l by simp
qed

theorem waitForIngredients_closing_witness:
  "\<exists>p'. run (\<lambda>k. 0) 1 [Ret 0, Ret 0, Ret 0] (woken1, stat0\<lparr>closing := True\<rparr>) =
          Some (p', stat0\<lparr>closing := True, smokerStat := [WAITING_2ING, CLOSING_S, WAITING_2ING]\<rparr>)
      \<and> pc p' = Loop103 \<and> \<not> ret p'"
  using waitForIngredients_closing [of 1 "\<lambda>k. 0" "[WriteClosing True]"
      proc0 stat0 woken1 "stat0\<lparr>closing := True\<rparr>"]
  by (simp add: proc0_def stat0_def woken1_def NUMSMOKERS_def wf_stat_def checked_def
      set_stat_def store_def env_writes_def Let_def)

text \<open>
  C9: the value returned by \<open>waitForIngredients (id)\<close> depends only on the closing flag
  read after the wake-up, never on the ingredient counts: whatever the counts \<open>xs\<close> are,
  the call returns the negation of the flag, and when the flag is false both decrements
  are made unconditionally, also from counts that are zero.
\<close>

theorem waitForIngredients_result:
  assumes "0 \<le> sid" and "sid < NUMSMOKERS"
    and "run rnd sid [Ret 0, Ret 0, Ret 0, Ret 0, Env ws] (p\<lparr>pc := Wait L154\<rparr>, fs0) = Some (q, fs)"
    and "pc q = Wait L177" and "wf_stat fs" and "length xs = 3"
  shows "\<exists>p' fs'. run rnd sid [Ret 0, Ret 0, Ret 0] (q, fs\<lparr>ingredients := xs\<rparr>) = Some (p', fs') \<and>
           pc p' = Loop103 \<and> ret p' = (\<not> closing fs) \<and>
           (\<not> closing fs \<longrightarrow> (\<forall>j<3. int j \<noteq> sid \<longrightarrow> ingredients fs' ! j = xs ! j - 1))"
proof (cases "closing fs")
  case True
  have l: "sid < int (length (smokerStat (fs\<lparr>ingredients := xs\<rparr>)))"
    using assms(2,5) by (simp add: wf_stat_def)
  show ?thesis
    using wait_return_closing [OF assms(4) _ assms(1) l, of rnd] True by simp
next
  case False
  have r: "ret q" using assms(3,4) by (rule woken_ret)
  show ?thesis
    using wait_return [OF assms(4), of "fs\<lparr>ingredients := xs\<rparr>" rnd sid] False r
    by (simp add: consume_nth [OF assms(6)])
qed

theorem waitForIngredients_result_witness:
  "\<exists>p'. run (\<lambda>k. 0) 1 [Ret 0, Ret 0, Ret 0] (woken1, stat0) =
          Some (p', stat0\<lparr>ingredients := [-1, 0, -1]\<rparr>)
      \<and> pc p' = Loop103 \<and> ret p'"
  using waitForIngredients_result [of 1 "\<lambda>k. 0" "[]" proc0 stat0 woken1 stat0 "[0, 0, 0]"]
  by (simp add: proc0_def stat0_def woken1_def NUMSMOKERS_def wf_stat_def checked_def
      set_stat_def store_def env_writes_def consume_def numeral_3_eq_3 Let_def)

subsection \<open>normalRand\<close>

lemma normalRand_loop_sum:
  "normalRand_loop rnd i (r, k) =
     (r + (\<Sum>j<12 - i. real_of_int (rnd (k + j)) / (real_of_int RAND_MAX + 1)), k + (12 - i))"
proof (induction rnd i "(r, k)" arbitrary: r k rule: normalRand_loop.induct)
  case (1 rnd i r k)
  show ?case
  proof (cases "i < 12")
    case True
    then have e: "12 - i = Suc (12 - (i + 1))" by simp
    show ?thesis
      using True "1" [OF True]
      apply (subst normalRand_loop.simps)
      apply (simp only: if_True e sum.lessThan_Suc_shift)
      apply (simp add: add.assoc)
      done
  next
    case False
    then show ?thesis by (subst normalRand_loop.simps) simp
  qed
qed

lemma normalRand_eq:
  "normalRand rnd stddev k =
     (((\<Sum>j<12. real_of_int (rnd (k + j)) / (real_of_int RAND_MAX + 1)) - 6) * stddev, k + 12)"
  by (simp add: normalRand_def normalRand_loop_sum del: normalRand_loop.simps)

text \<open>
  C8: for every sequence of random draws, \<open>normalRand (stddev)\<close> returns the sum of twelve
  samples \<open>random () / (RAND_MAX + 1.0)\<close> minus 6, multiplied by \<open>stddev\<close>, and it draws
  exactly twelve times; in particular \<open>normalRand (0)\<close> returns 0.  Each sample lies in
  \<open>[0, 1)\<close> when \<open>random ()\<close> returns values from 0 to \<open>RAND_MAX\<close>.
\<close>

theorem normalRand_value:
  "fst (normalRand rnd stddev k) =
     ((\<Sum>j<12. real_of_int (rnd (k + j)) / (real_of_int RAND_MAX + 1)) - 6) * stddev \<and>
   snd (normalRand rnd stddev k) = k + 12 \<and>
   fst (normalRand rnd 0 k) = 0 \<and>
   ((\<forall>j. 0 \<le> rnd j \<and> rnd j \<le> RAND_MAX) \<longrightarrow>
      (\<forall>j. 0 \<le> real_of_int (rnd j) / (real_of_int RAND_MAX + 1) \<and>
           real_of_int (rnd j) / (real_of_int RAND_MAX + 1) < 1))"
proof -
  have "0 \<le> real_of_int (rnd j) / (real_of_int RAND_MAX + 1) \<and>
        real_of_int (rnd j) / (real_of_int RAND_MAX + 1) < 1"
    if "\<forall>j. 0 \<le> rnd j \<and> rnd j \<le> RAND_MAX" for j
  proof -
    from that have "0 \<le> rnd j" and "rnd j \<le> RAND_MAX" by simp_all
    then show ?thesis by (simp add: RAND_MAX_def)
  qed
  then show ?thesis by (simp add: normalRand_eq)
qed

theorem normalRand_value_witness:
  "fst (normalRand draws_half 30 0) = 0 \<and> snd (normalRand draws_half 30 0) = 12 \<and>
   fst (normalRand draws_half 0 0) = 0 \<and>
   real_of_int (draws_half 0) / (real_of_int RAND_MAX + 1) = 1 / 2"
  using normalRand_value [of draws_half 30 0]
  by (simp add: draws_half_def RAND_MAX_def)

subsection \<open>Calls of rollingCigarette and smoke\<close>

lemma snd_normalRand: "snd (normalRand rnd stddev k) = k + 12"
  by (simp add: normalRand_eq)

lemma normalRand_half: "normalRand draws_half stddev k = (0, k + 12)"
  by (simp add: normalRand_eq draws_half_def RAND_MAX_def)

lemma run_append:
  "run rnd sid (ms @ ns) c = (case run rnd sid ms c of None \<Rightarrow> None | Some c' \<Rightarrow> run rnd sid ns c')"
proof (induction ms arbitrary: c)
  case Nil
  show ?case by simp
next
  case (Cons m ms)
  show ?case
  proof (cases m)
    case (Ret r)
    then show ?thesis using Cons by simp
  next
    case (Env ws)
    then show ?thesis using Cons by (cases c) simp
  qed
qed

text \<open>
  A call of \<open>rollingCigarette\<close> in which every semaphore operation succeeds; \<open>ws\<close> is
  what the other processes write before the smoker gets the mutex.
\<close>

lemma roll_call:
  assumes "pc q = Roll L215" and "0 \<le> sid" and "sid < NUMSMOKERS" and "wf_stat fs"
  shows "run rnd sid [Ret 0, Env ws, Ret 0, Ret 0, Ret 0, Ret 0, Ret 0] (q, fs) =
     Some (q\<lparr>pc := Smoke L255,
             rollingTime := 100 + fst (normalRand rnd 30 (rpos q)),
             rpos := rpos q + 12,
             trace := trace q @
               [SemDown Mutex,
                SaveState ((env_writes ws fs)\<lparr>smokerStat := (smokerStat (env_writes ws fs))[nat sid := ROLLING]\<rparr>)] @
               (if 0 < 100 + fst (normalRand rnd 30 (rpos q))
                then [Usleep (nat \<lfloor>100 + fst (normalRand rnd 30 (rpos q))\<rfloor>)] else []) @
               [SemUp Mutex, SemUp WaitCigarette]\<rparr>,
           (env_writes ws fs)\<lparr>smokerStat := (smokerStat (env_writes ws fs))[nat sid := ROLLING]\<rparr>)"
proof -
  have "wf_stat (env_writes ws fs)" using assms(4) by (simp add: wf_env_writes)
  then have "sid < int (length (smokerStat (env_writes ws fs)))"
    using assms(3) by (simp add: wf_stat_def)
  then show ?thesis
    using assms(1,2)
    by (simp add: checked_def set_stat_def store_def sleep_def Let_def split_beta snd_normalRand)
qed

text \<open>The same for a call of \<open>smoke\<close>.\<close>

lemma smoke_call:
  assumes "pc q = Smoke L255" and "0 \<le> sid" and "sid < NUMSMOKERS" and "wf_stat fs"
  shows "run rnd sid [Env ws, Ret 0, Ret 0, Ret 0, Ret 0, Ret 0] (q, fs) =
     Some (q\<lparr>pc := Wait L154,
             rpos := rpos q + 12,
             trace := trace q @
               [SemDown Mutex,
                SaveState ((env_writes ws fs)\<lparr>smokerStat := (smokerStat (env_writes ws fs))[nat sid := SMOKING]\<rparr>)] @
               (if 0 < 100 + fst (normalRand rnd 30 (rpos q))
                then [Usleep (nat \<lfloor>100 + fst (normalRand rnd 30 (rpos q))\<rfloor>)] else []) @
               [SaveState ((env_writes ws fs)\<lparr>smokerStat := (smokerStat (env_writes ws fs))[nat sid := SMOKING],
                   nCigarettes := (nCigarettes (env_writes ws fs))[nat sid := nCigarettes (env_writes ws fs) ! nat sid + 1]\<rparr>),
                SemUp Mutex]\<rparr>,
           (env_writes ws fs)\<lparr>smokerStat := (smokerStat (env_writes ws fs))[nat sid := SMOKING],
              nCigarettes := (nCigarettes (env_writes ws fs))[nat sid := nCigarettes (env_writes ws fs) ! nat sid + 1]\<rparr>)"
proof -
  have "wf_stat (env_writes ws fs)" using assms(4) by (simp add: wf_env_writes)
  then have "sid < int (length (smokerStat (env_writes ws fs)))"
    and "sid < int (length (nCigarettes (env_writes ws fs)))"
    using assms(3) by (simp_all add: wf_stat_def)
  then show ?thesis
    using assms(1,2)
    by (simp add: checked_def set_stat_def store_def sleep_def Let_def split_beta snd_normalRand)
qed

subsection \<open>The rolling delay and the mutex\<close>

text \<open>
  C3 as stated (the mutex is released before the rolling delay, so that the sleep never
  happens while the smoker holds the lock) fails.  In the execution below smoker 1 starts
  its life cycle, is supplied and woken, and rolls for 100 microseconds: the \<open>usleep\<close> of
  line 228 stands between the \<open>semDown\<close> of line 217 and the \<open>semUp\<close> of line 231.
\<close>

theorem rollingCigarette_sleeps_holding_mutex:
  "run draws_half 1
     [Ret 0, Ret 0, Ret 0, Env [WriteIngredients 0 1, WriteIngredients 2 1], Ret 0, Ret 0, Ret 0, Ret 0,
      Ret 0,
      Ret 0, Ret 0, Ret 0, Ret 0, Ret 0, Ret 0]
     (proc0, stat0) =
     Some (rolled1, stat0\<lparr>smokerStat := [WAITING_2ING, ROLLING, WAITING_2ING]\<rparr>) \<and>
   drop 7 (trace rolled1) =
     [SemDown Mutex, SaveState (stat0\<lparr>smokerStat := [WAITING_2ING, ROLLING, WAITING_2ING]\<rparr>),
      Usleep 100, SemUp Mutex, SemUp WaitCigarette] \<and>
   sleeps_holding False (drop 7 (trace rolled1))"
  by (simp add: proc0_def stat0_def rolled1_def checked_def set_stat_def store_def sleep_def
      env_writes_def consume_def numeral_3_eq_3 NUMSMOKERS_def Let_def normalRand_half)

text \<open>
  C3 as amended: in \<open>rollingCigarette\<close> the delay is part of the critical region.  A
  call performs, in this order, \<open>semDown\<close> of the mutex, the status update with its
  \<open>saveState\<close>, the \<open>usleep\<close> (when the time drawn is positive), \<open>semUp\<close> of the mutex and
  \<open>semUp\<close> of \<open>waitCigarette\<close>: whenever the smoker sleeps, it sleeps holding the mutex,
  and only the notification of the agent comes after the release.
\<close>

theorem rollingCigarette_delay_in_critical_region:
  assumes "0 \<le> sid" and "sid < NUMSMOKERS" and "wf_stat fs" and "pc q = Roll L215"
  shows "\<exists>p' fs' t. run rnd sid [Ret 0, Env ws, Ret 0, Ret 0, Ret 0, Ret 0, Ret 0] (q, fs) = Some (p', fs') \<and>
           pc p' = Smoke L255 \<and>
           t = 100 + fst (normalRand rnd 30 (rpos q)) \<and>
           drop (length (trace q)) (trace p') =
             [SemDown Mutex, SaveState fs'] @ (if 0 < t then [Usleep (nat \<lfloor>t\<rfloor>)] else []) @
             [SemUp Mutex, SemUp WaitCigarette] \<and>
           sleeps_holding False (drop (length (trace q)) (trace p')) = (0 < t)"
  using roll_call [OF assms(4,1,2,3), of rnd ws] by simp

theorem rollingCigarette_delay_in_critical_region_witness:
  "run draws_half 1 [Ret 0, Env [], Ret 0, Ret 0, Ret 0, Ret 0, Ret 0] (rolling1, stat0) =
     Some (rolled1, stat0\<lparr>smokerStat := [WAITING_2ING, ROLLING, WAITING_2ING]\<rparr>) \<and>
   sleeps_holding False (drop (length (trace rolling1)) (trace rolled1))"
  using rollingCigarette_delay_in_critical_region [of 1 stat0 rolling1 draws_half "[]"]
  by (simp add: stat0_def rolling1_def rolled1_def checked_def set_stat_def store_def sleep_def
      env_writes_def NUMSMOKERS_def wf_stat_def Let_def normalRand_half)

subsection \<open>The cigarette counters\<close>

lemma snapshots_append: "snapshots (es @ es') = snapshots es @ snapshots es'"
  by (induction es rule: snapshots.induct) simp_all

text \<open>A step of the smoker changes \<open>nCigarettes\<close> at line 270 only, and only its own slot.\<close>

lemma step_cigarettes:
  assumes "smoker_step rnd r sid (p, fs) = (p', fs')"
  shows "nCigarettes fs' = nCigarettes fs \<or>
         (pc p = Smoke L270 \<and> 0 \<le> sid \<and> nat sid < length (nCigarettes fs) \<and>
          nCigarettes fs' = (nCigarettes fs)[nat sid := nCigarettes fs ! nat sid + 1])"
proof (cases "pc p")
  case (Wait l)
  then show ?thesis
    using assms
    by (cases l) (auto simp: checked_def set_stat_def store_def Let_def split: if_splits option.splits)
next
  case (Roll l)
  then show ?thesis
    using assms
    by (cases l) (auto simp: checked_def set_stat_def store_def sleep_def Let_def split_beta
        split: if_splits option.splits)
next
  case (Smoke l)
  then show ?thesis
    using assms
    by (cases l) (auto simp: checked_def set_stat_def store_def sleep_def Let_def split_beta
        split: if_splits option.splits)
qed (use assms in \<open>auto simp: checked_def split: if_splits\<close>)

lemma step_cigarettes_mono:
  assumes "smoker_step rnd r sid c = c'"
  shows "nCigarettes (snd c) ! j \<le> nCigarettes (snd c') ! j"
proof -
  obtain p fs p' fs' where c: "c = (p, fs)" "c' = (p', fs')" by (cases c, cases c') blast
  from step_cigarettes [of rnd r sid p fs p' fs'] assms c
  consider "nCigarettes fs' = nCigarettes fs"
    | "nat sid < length (nCigarettes fs)"
      "nCigarettes fs' = (nCigarettes fs)[nat sid := nCigarettes fs ! nat sid + 1]"
    by auto
  then show ?thesis
  proof cases
    case 1
    then show ?thesis using c by simp
  next
    case 2
    then show ?thesis using c by (cases "j = nat sid") simp_all
  qed
qed

lemma run_cigarettes_mono:
  "run rnd sid (map Ret rs) c = Some c' \<Longrightarrow> nCigarettes (snd c) ! j \<le> nCigarettes (snd c') ! j"
proof (induction rs arbitrary: c)
  case Nil
  then show ?case by simp
next
  case (Cons r rs)
  have "nCigarettes (snd c) ! j \<le> nCigarettes (snd (smoker_step rnd r sid c)) ! j"
    by (rule step_cigarettes_mono) simp
  moreover have "nCigarettes (snd (smoker_step rnd r sid c)) ! j \<le> nCigarettes (snd c') ! j"
    using Cons by simp
  ultimately show ?case by simp
qed

lemma stats_rev_snoc [simp]:
  "stats_rev sid (es @ [SaveState s]) = (smokerStat s ! nat sid) # stats_rev sid es"
  "stats_rev sid (es @ [SemDown x]) = stats_rev sid es"
  "stats_rev sid (es @ [SemUp x]) = stats_rev sid es"
  "stats_rev sid (es @ [Usleep t]) = stats_rev sid es"
  "stats_rev sid (es @ [Perror m]) = stats_rev sid es"
  "stats_rev sid (es @ [ShmemDettach]) = stats_rev sid es"
  by (simp_all add: stats_rev_def snapshots_append)

lemma step_cycle_inv:
  assumes "cycle_inv sid p" and "smoker_step rnd r sid (p, fs) = (p', fs')"
  shows "cycle_inv sid p'"
proof (cases "pc p")
  case (Wait l)
  then show ?thesis
    using assms
    by (cases l) (auto simp: checked_def set_stat_def store_def Let_def split: if_splits option.splits)
next
  case (Roll l)
  then show ?thesis
    using assms
    by (cases l) (auto simp: checked_def set_stat_def store_def sleep_def Let_def split_beta
        split: if_splits option.splits)
next
  case (Smoke l)
  then show ?thesis
    using assms
    by (cases l) (auto simp: checked_def set_stat_def store_def sleep_def Let_def split_beta
        split: if_splits option.splits)
qed (use assms in \<open>auto simp: checked_def split: if_splits\<close>)

lemma run_cycle_inv:
  "run rnd sid ms (p, fs) = Some (p', fs') \<Longrightarrow> cycle_inv sid p \<Longrightarrow> cycle_inv sid p'"
proof (induction ms arbitrary: p fs)
  case Nil
  then show ?case by simp
next
  case (Cons m ms)
  show ?case
  proof (cases m)
    case (Ret r)
    obtain p1 fs1 where s: "smoker_step rnd r sid (p, fs) = (p1, fs1)" by (cases "smoker_step rnd r sid (p, fs)")
    have "cycle_inv sid p1" using Cons.prems(2) s by (rule step_cycle_inv)
    moreover have "run rnd sid ms (p1, fs1) = Some (p', fs')" using Cons.prems(1) Ret s by simp
    ultimately show ?thesis by (rule Cons.IH [rotated])
  next
    case (Env ws)
    then have "run rnd sid ms (p, env_writes ws fs) = Some (p', fs')"
      using Cons.prems(1) by (simp split: if_splits)
    then show ?thesis using Cons.prems(2) by (rule Cons.IH)
  qed
qed

lemma roll_call_log:
  assumes "pc q = Roll L215" and "0 \<le> sid" and "sid < NUMSMOKERS" and "wf_stat fs"
    and "fs1 = (env_writes ws fs)\<lparr>smokerStat := (smokerStat (env_writes ws fs))[nat sid := ROLLING]\<rparr>"
  shows "\<exists>p' es. run rnd sid [Ret 0, Env ws, Ret 0, Ret 0, Ret 0, Ret 0, Ret 0] (q, fs) = Some (p', fs1) \<and>
           pc p' = Smoke L255 \<and> trace p' = trace q @ es \<and> snapshots es = [fs1]"
  unfolding roll_call [OF assms(1-4), of rnd ws] assms(5) by simp

lemma smoke_call_log:
  assumes "pc q = Smoke L255" and "0 \<le> sid" and "sid < NUMSMOKERS" and "wf_stat fs"
    and "fs1 = (env_writes ws fs)\<lparr>smokerStat := (smokerStat (env_writes ws fs))[nat sid := SMOKING]\<rparr>"
    and "fs2 = fs1\<lparr>nCigarettes := (nCigarettes fs1)[nat sid := nCigarettes fs1 ! nat sid + 1]\<rparr>"
  shows "\<exists>p' es. run rnd sid [Env ws, Ret 0, Ret 0, Ret 0, Ret 0, Ret 0] (q, fs) = Some (p', fs2) \<and>
           pc p' = Wait L154 \<and> trace p' = trace q @ es \<and> snapshots es = [fs1, fs2]"
  unfolding smoke_call [OF assms(1-4), of rnd ws] assms(5,6) by simp

lemma cycle_run:
  assumes "pc q = Roll L215" and "0 \<le> sid" and "sid < NUMSMOKERS" and "wf_stat fs"
    and "fs1 = (env_writes ws1 fs)\<lparr>smokerStat := (smokerStat (env_writes ws1 fs))[nat sid := ROLLING]\<rparr>"
    and "fs2 = (env_writes ws2 fs1)\<lparr>smokerStat := (smokerStat (env_writes ws2 fs1))[nat sid := SMOKING]\<rparr>"
    and "fs3 = fs2\<lparr>nCigarettes := (nCigarettes fs2)[nat sid := nCigarettes fs2 ! nat sid + 1]\<rparr>"
  shows "\<exists>p' es. run rnd sid
           [Ret 0, Env ws1, Ret 0, Ret 0, Ret 0, Ret 0, Ret 0, Env ws2, Ret 0, Ret 0, Ret 0, Ret 0, Ret 0]
           (q, fs) = Some (p', fs3) \<and>
         pc p' = Wait L154 \<and> trace p' = trace q @ es \<and> snapshots es = [fs1, fs2, fs3]"
proof -
  from roll_call_log [OF assms(1-5)] obtain p1 es1 where
    r1: "run rnd sid [Ret 0, Env ws1, Ret 0, Ret 0, Ret 0, Ret 0, Ret 0] (q, fs) = Some (p1, fs1)"
    and p1: "pc p1 = Smoke L255" "trace p1 = trace q @ es1" "snapshots es1 = [fs1]"
    by blast
  have w1: "wf_stat fs1"
    using assms(4) wf_env_writes [of ws1 fs] by (simp add: assms(5) wf_stat_def)
  from smoke_call_log [OF p1(1) assms(2,3) w1 assms(6,7)] obtain p2 es2 where
    r2: "run rnd sid [Env ws2, Ret 0, Ret 0, Ret 0, Ret 0, Ret 0] (p1, fs1) = Some (p2, fs3)"
    and p2: "pc p2 = Wait L154" "trace p2 = trace p1 @ es2" "snapshots es2 = [fs2, fs3]"
    by blast
  have "run rnd sid
      ([Ret 0, Env ws1, Ret 0, Ret 0, Ret 0, Ret 0, Ret 0] @ [Env ws2, Ret 0, Ret 0, Ret 0, Ret 0, Ret 0])
      (q, fs) = Some (p2, fs3)"
    unfolding run_append r1 using r2 by simp
  moreover have "trace p2 = trace q @ (es1 @ es2)" "snapshots (es1 @ es2) = [fs1, fs2, fs3]"
    using p1 p2 by (simp_all add: snapshots_append)
  ultimately show ?thesis
    using p2(1) by (intro exI [of _ p2] exI [of _ "es1 @ es2"]) simp
qed

text \<open>
  C4: every call of \<open>smoke (id)\<close> increments \<open>nCigarettes[id]\<close> by exactly one and
  modifies no other slot.  In a roll-and-smoke cycle the smoker saves three snapshots:
  one with its status \<open>ROLLING\<close>, one with its status \<open>SMOKING\<close> and the count that
  \<open>smoke\<close> found, and one with that count plus one.  The steps of the smoker never
  decrease a count, and whenever the smoker stands at the increment of line 270 the last
  two snapshots of its log show it \<open>ROLLING\<close> and then \<open>SMOKING\<close>.
\<close>

theorem smoke_increments_nCigarettes:
  assumes "0 \<le> sid" and "sid < NUMSMOKERS" and "wf_stat fs" and "pc q = Roll L215"
  shows "(\<exists>p' fs1 fs2 fs3.
            run rnd sid
              [Ret 0, Env ws1, Ret 0, Ret 0, Ret 0, Ret 0, Ret 0, Env ws2, Ret 0, Ret 0, Ret 0, Ret 0, Ret 0]
              (q, fs) = Some (p', fs3) \<and>
            pc p' = Wait L154 \<and>
            snapshots (drop (length (trace q)) (trace p')) = [fs1, fs2, fs3] \<and>
            smokerStat fs1 ! nat sid = ROLLING \<and> smokerStat fs2 ! nat sid = SMOKING \<and>
            nCigarettes fs2 = nCigarettes (env_writes ws2 fs1) \<and>
            fs3 = fs2\<lparr>nCigarettes := nCigarettes fs3\<rparr> \<and>
            nCigarettes fs3 ! nat sid = nCigarettes fs2 ! nat sid + 1 \<and>
            (\<forall>j<3. int j \<noteq> sid \<longrightarrow> nCigarettes fs3 ! j = nCigarettes fs2 ! j) \<and>
            (ws1 = [] \<and> ws2 = [] \<longrightarrow> nCigarettes fs3 ! nat sid = nCigarettes fs ! nat sid + 1)) \<and>
         (\<forall>rs c c' j. run rnd sid (map Ret rs) c = Some c' \<longrightarrow>
            nCigarettes (snd c) ! j \<le> nCigarettes (snd c') ! j) \<and>
         (\<forall>ms p0 s0 p1 s1.
            pc p0 = Wait L154 \<and> run rnd sid ms (p0, s0) = Some (p1, s1) \<and> pc p1 = Smoke L270 \<longrightarrow>
            take 2 (stats_rev sid (trace p1)) = [SMOKING, ROLLING])"
proof (intro conjI allI impI)
  define fs1 where
    "fs1 = (env_writes ws1 fs)\<lparr>smokerStat := (smokerStat (env_writes ws1 fs))[nat sid := ROLLING]\<rparr>"
  define fs2 where
    "fs2 = (env_writes ws2 fs1)\<lparr>smokerStat := (smokerStat (env_writes ws2 fs1))[nat sid := SMOKING]\<rparr>"
  define fs3 where
    "fs3 = fs2\<lparr>nCigarettes := (nCigarettes fs2)[nat sid := nCigarettes fs2 ! nat sid + 1]\<rparr>"
  have w1: "wf_stat (env_writes ws1 fs)" using assms(3) by (simp add: wf_env_writes)
  then have "wf_stat fs1" by (simp add: fs1_def wf_stat_def)
  then have w2: "wf_stat (env_writes ws2 fs1)" by (simp add: wf_env_writes)
  have n: "nat sid < 3" using assms(1,2) by (simp add: NUMSMOKERS_def)
  from cycle_run [OF assms(4,1,2,3) fs1_def fs2_def fs3_def, of rnd] obtain p' es where
    "run rnd sid
       [Ret 0, Env ws1, Ret 0, Ret 0, Ret 0, Ret 0, Ret 0, Env ws2, Ret 0, Ret 0, Ret 0, Ret 0, Ret 0]
       (q, fs) = Some (p', fs3)"
    "pc p' = Wait L154" and t: "trace p' = trace q @ es" "snapshots es = [fs1, fs2, fs3]"
    by blast
  moreover have "snapshots (drop (length (trace q)) (trace p')) = [fs1, fs2, fs3]"
    using t by simp
  moreover have "smokerStat fs1 ! nat sid = ROLLING"
    using w1 n by (simp add: fs1_def wf_stat_def NUMSMOKERS_def)
  moreover have "smokerStat fs2 ! nat sid = SMOKING"
    using w2 n by (simp add: fs2_def wf_stat_def NUMSMOKERS_def)
  moreover have "nCigarettes fs2 = nCigarettes (env_writes ws2 fs1)" by (simp add: fs2_def)
  moreover have "fs3 = fs2\<lparr>nCigarettes := nCigarettes fs3\<rparr>" by (simp add: fs3_def)
  moreover have "nCigarettes fs3 ! nat sid = nCigarettes fs2 ! nat sid + 1"
    using w2 n by (simp add: fs3_def fs2_def wf_stat_def NUMSMOKERS_def)
  moreover have "\<forall>j<3. int j \<noteq> sid \<longrightarrow> nCigarettes fs3 ! j = nCigarettes fs2 ! j"
    using assms(1) by (auto simp: fs3_def)
  moreover have "ws1 = [] \<and> ws2 = [] \<longrightarrow> nCigarettes fs3 ! nat sid = nCigarettes fs ! nat sid + 1"
    using assms(3) n by (simp add: fs3_def fs2_def fs1_def env_writes_def wf_stat_def NUMSMOKERS_def)
  ultimately show "\<exists>p' fs1 fs2 fs3.
            run rnd sid
              [Ret 0, Env ws1, Ret 0, Ret 0, Ret 0, Ret 0, Ret 0, Env ws2, Ret 0, Ret 0, Ret 0, Ret 0, Ret 0]
              (q, fs) = Some (p', fs3) \<and>
            pc p' = Wait L154 \<and>
            snapshots (drop (length (trace q)) (trace p')) = [fs1, fs2, fs3] \<and>
            smokerStat fs1 ! nat sid = ROLLING \<and> smokerStat fs2 ! nat sid = SMOKING \<and>
            nCigarettes fs2 = nCigarettes (env_writes ws2 fs1) \<and>
            fs3 = fs2\<lparr>nCigarettes := nCigarettes fs3\<rparr> \<and>
            nCigarettes fs3 ! nat sid = nCigarettes fs2 ! nat sid + 1 \<and>
            (\<forall>j<3. int j \<noteq> sid \<longrightarrow> nCigarettes fs3 ! j = nCigarettes fs2 ! j) \<and>
            (ws1 = [] \<and> ws2 = [] \<longrightarrow> nCigarettes fs3 ! nat sid = nCigarettes fs ! nat sid + 1)"
    by blast
next
  fix rs c c' j
  assume "run rnd sid (map Ret rs) c = Some c'"
  then show "nCigarettes (snd c) ! j \<le> nCigarettes (snd c') ! j" by (rule run_cigarettes_mono)
next
  fix ms p0 s0 p1 s1
  assume a: "pc p0 = Wait L154 \<and> run rnd sid ms (p0, s0) = Some (p1, s1) \<and> pc p1 = Smoke L270"
  then have "cycle_inv sid p0" by simp
  with a have "cycle_inv sid p1" using run_cycle_inv by blast
  with a show "take 2 (stats_rev sid (trace p1)) = [SMOKING, ROLLING]" by simp
qed

theorem smoke_increments_nCigarettes_witness:
  "run draws_half 1
     [Ret 0, Env [], Ret 0, Ret 0, Ret 0, Ret 0, Ret 0, Env [], Ret 0, Ret 0, Ret 0, Ret 0, Ret 0]
     (rolling1, stat0) =
   Some (smoked1, stat0\<lparr>smokerStat := [WAITING_2ING, SMOKING, WAITING_2ING], nCigarettes := [0, 1, 0]\<rparr>)"
  using smoke_increments_nCigarettes [of 1 stat0 rolling1 draws_half "[]" "[]"]
  by (simp add: stat0_def rolling1_def smoked1_def checked_def set_stat_def store_def sleep_def
      env_writes_def NUMSMOKERS_def wf_stat_def Let_def normalRand_half)

subsection \<open>The loop of main\<close>

lemma closing_logged_snoc [simp]:
  "closing_logged sid (es @ [SaveState s]) = (closing s \<and> smokerStat s ! nat sid = CLOSING_S)"
  "closing_logged sid (es @ [SemDown x]) = closing_logged sid es"
  "closing_logged sid (es @ [SemUp x]) = closing_logged sid es"
  "closing_logged sid (es @ [Usleep t]) = closing_logged sid es"
  "closing_logged sid (es @ [Perror m]) = closing_logged sid es"
  "closing_logged sid (es @ [ShmemDettach]) = closing_logged sid es"
  by (simp_all add: closing_logged_def snapshots_append)

lemma step_exit_inv:
  assumes "exit_inv sid p" and "smoker_step rnd r sid (p, fs) = (p', fs')"
  shows "exit_inv sid p'"
proof (cases "pc p")
  case (Wait l)
  then show ?thesis
    using assms
    by (cases l)
      (auto simp: checked_def set_stat_def store_def Let_def EXIT_SUCCESS_def EXIT_FAILURE_def
        split: if_splits option.splits)
next
  case (Roll l)
  then show ?thesis
    using assms
    by (cases l)
      (auto simp: checked_def set_stat_def store_def sleep_def Let_def split_beta
        EXIT_SUCCESS_def EXIT_FAILURE_def split: if_splits option.splits)
next
  case (Smoke l)
  then show ?thesis
    using assms
    by (cases l)
      (auto simp: checked_def set_stat_def store_def sleep_def Let_def split_beta
        EXIT_SUCCESS_def EXIT_FAILURE_def split: if_splits option.splits)
qed (use assms in \<open>auto simp: checked_def EXIT_SUCCESS_def EXIT_FAILURE_def split: if_splits\<close>)

lemma run_exit_inv:
  "run rnd sid ms (p, fs) = Some (p', fs') \<Longrightarrow> exit_inv sid p \<Longrightarrow> exit_inv sid p'"
proof (induction ms arbitrary: p fs)
  case Nil
  then show ?case by simp
next
  case (Cons m ms)
  show ?case
  proof (cases m)
    case (Ret r)
    obtain p1 fs1 where s: "smoker_step rnd r sid (p, fs) = (p1, fs1)"
      by (cases "smoker_step rnd r sid (p, fs)")
    have "exit_inv sid p1" using Cons.prems(2) s by (rule step_exit_inv)
    moreover have "run rnd sid ms (p1, fs1) = Some (p', fs')" using Cons.prems(1) Ret s by simp
    ultimately show ?thesis by (rule Cons.IH [rotated])
  next
    case (Env ws)
    then have "run rnd sid ms (p, env_writes ws fs) = Some (p', fs')"
      using Cons.prems(1) by (simp split: if_splits)
    then show ?thesis using Cons.prems(2) by (rule Cons.IH)
  qed
qed

lemma run_split:
  "run rnd sid ms c = Some c1 \<Longrightarrow> run rnd sid ns c1 = x \<Longrightarrow> run rnd sid (ms @ ns) c = x"
  by (simp add: run_append)

lemma loop_exit:
  assumes "pc q = Wait L177" and "closing fs" and "0 \<le> sid" and "sid < NUMSMOKERS" and "wf_stat fs"
  shows "run rnd sid [Ret 0, Ret 0, Ret 0, Ret 0, Ret 0] (q, fs) =
     Some (q\<lparr>pc := Exited EXIT_SUCCESS, ret := False,
             trace := trace q @
               [SemDown Mutex,
                SaveState (fs\<lparr>smokerStat := (smokerStat fs)[nat sid := CLOSING_S]\<rparr>), SemUp Mutex,
                ShmemDettach]\<rparr>,
           fs\<lparr>smokerStat := (smokerStat fs)[nat sid := CLOSING_S]\<rparr>)"
proof -
  have l: "sid < int (length (smokerStat fs))" using assms(4,5) by (simp add: wf_stat_def)
  have "run rnd sid ([Ret 0, Ret 0, Ret 0] @ [Ret 0, Ret 0]) (q, fs) =
     Some (q\<lparr>pc := Exited EXIT_SUCCESS, ret := False,
             trace := trace q @
               [SemDown Mutex,
                SaveState (fs\<lparr>smokerStat := (smokerStat fs)[nat sid := CLOSING_S]\<rparr>), SemUp Mutex,
                ShmemDettach]\<rparr>,
           fs\<lparr>smokerStat := (smokerStat fs)[nat sid := CLOSING_S]\<rparr>)"
    by (rule run_split [OF wait_return_closing [OF assms(1,2,3) l]]) (simp add: checked_def)
  then show ?thesis by simp
qed

lemma loop_body:
  assumes "pc q = Wait L177" and "\<not> closing fs" and "ret q" and "0 \<le> sid" and "sid < NUMSMOKERS"
    and "wf_stat fs"
    and "fsc = fs\<lparr>ingredients := consume sid (ingredients fs)\<rparr>"
    and "fs1 = (env_writes ws1 fsc)\<lparr>smokerStat := (smokerStat (env_writes ws1 fsc))[nat sid := ROLLING]\<rparr>"
    and "fs2 = (env_writes ws2 fs1)\<lparr>smokerStat := (smokerStat (env_writes ws2 fs1))[nat sid := SMOKING]\<rparr>"
    and "fs3 = fs2\<lparr>nCigarettes := (nCigarettes fs2)[nat sid := nCigarettes fs2 ! nat sid + 1]\<rparr>"
  shows "\<exists>p1 p'. run rnd sid [Ret 0, Ret 0, Ret 0, Ret 0] (q, fs) = Some (p1, fsc) \<and> pc p1 = Roll L215 \<and>
           run rnd sid
             ([Ret 0, Ret 0, Ret 0, Ret 0] @
              [Ret 0, Env ws1, Ret 0, Ret 0, Ret 0, Ret 0, Ret 0, Env ws2, Ret 0, Ret 0, Ret 0, Ret 0, Ret 0])
             (q, fs) = Some (p', fs3) \<and>
           pc p' = Wait L154 \<and>
           snapshots (drop (length (trace q)) (trace p')) = [fsc, fs1, fs2, fs3]"
proof -
  let ?p1 = "q\<lparr>pc := Roll L215, trace := trace q @ [SemDown Mutex, SaveState fsc, SemUp Mutex]\<rparr>"
  have "run rnd sid ([Ret 0, Ret 0, Ret 0] @ [Ret 0]) (q, fs) = Some (?p1, fsc)"
    by (rule run_split [OF wait_return [OF assms(1,2)]]) (simp add: assms(3,7))
  then have r1: "run rnd sid [Ret 0, Ret 0, Ret 0, Ret 0] (q, fs) = Some (?p1, fsc)" by simp
  have w0: "wf_stat fsc" using assms(6) by (simp add: assms(7) wf_stat_def consume_length)
  have "pc ?p1 = Roll L215" by simp
  from cycle_run [OF this assms(4,5) w0 assms(8,9,10), of rnd] obtain p' es where
    r2: "run rnd sid
           [Ret 0, Env ws1, Ret 0, Ret 0, Ret 0, Ret 0, Ret 0, Env ws2, Ret 0, Ret 0, Ret 0, Ret 0, Ret 0]
           (?p1, fsc) = Some (p', fs3)"
    and p': "pc p' = Wait L154" "trace p' = trace ?p1 @ es" "snapshots es = [fs1, fs2, fs3]"
    by blast
  have "snapshots (drop (length (trace q)) (trace p')) = [fsc, fs1, fs2, fs3]"
    using p'(2,3) by (simp add: snapshots_append)
  then show ?thesis
    using r1 run_split [OF r1 r2] p'(1) by (intro exI [of _ ?p1] exI [of _ p']) simp
qed

text \<open>
  C5: the loop of \<open>main\<close> repeats \<open>waitForIngredients\<close>.  When the call returns false
  (the smoker was woken with the closing flag set), the loop is left, the shared region
  is unmapped and the process ends with \<open>EXIT_SUCCESS\<close>, without rolling or smoking.
  When it returns true, \<open>rollingCigarette\<close> and then \<open>smoke\<close> are executed, in this
  order, and the loop starts again at the call of \<open>waitForIngredients\<close>.  The closing
  signal is the only way out of the loop: in every execution, the smoker gets to the
  unmapping of line 109, or ends with \<open>EXIT_SUCCESS\<close>, only with the snapshot of its
  terminal status, taken with the closing flag set, as the last one in its log.  (The
  semaphore operations and \<open>shmemDettach\<close> are taken to succeed; the failure of one of
  them ends the process with \<open>EXIT_FAILURE\<close>.)
\<close>

theorem main_loop:
  assumes "0 \<le> sid" and "sid < NUMSMOKERS"
    and "run rnd sid [Ret 0, Ret 0, Ret 0, Ret 0, Env ws] (p\<lparr>pc := Wait L154\<rparr>, fs0) = Some (q, fs)"
    and "pc q = Wait L177" and "wf_stat fs"
  shows "(closing fs \<longrightarrow>
            (\<exists>p' fs'. run rnd sid [Ret 0, Ret 0, Ret 0, Ret 0, Ret 0] (q, fs) = Some (p', fs') \<and>
               pc p' = Exited EXIT_SUCCESS \<and>
               drop (length (trace q)) (trace p') =
                 [SemDown Mutex, SaveState fs', SemUp Mutex, ShmemDettach] \<and>
               smokerStat fs' ! nat sid = CLOSING_S)) \<and>
         (\<not> closing fs \<longrightarrow>
            (\<exists>p1 fsc p' fs1 fs2 fs3.
               run rnd sid [Ret 0, Ret 0, Ret 0, Ret 0] (q, fs) = Some (p1, fsc) \<and> pc p1 = Roll L215 \<and>
               run rnd sid
                 ([Ret 0, Ret 0, Ret 0, Ret 0] @
                  [Ret 0, Env ws1, Ret 0, Ret 0, Ret 0, Ret 0, Ret 0,
                   Env ws2, Ret 0, Ret 0, Ret 0, Ret 0, Ret 0])
                 (q, fs) = Some (p', fs3) \<and>
               pc p' = Wait L154 \<and>
               snapshots (drop (length (trace q)) (trace p')) = [fsc, fs1, fs2, fs3] \<and>
               smokerStat fs1 ! nat sid = ROLLING \<and> smokerStat fs2 ! nat sid = SMOKING \<and>
               nCigarettes fs3 ! nat sid = nCigarettes fs2 ! nat sid + 1)) \<and>
         (\<forall>ms p0 s0 p1 s1.
            pc p0 = Wait L154 \<and> run rnd sid ms (p0, s0) = Some (p1, s1) \<and>
            (pc p1 = Main109 \<or> pc p1 = Exited EXIT_SUCCESS) \<longrightarrow>
            closing_logged sid (trace p1))"
proof (intro conjI allI impI)
  assume c: "closing fs"
  have l: "nat sid < length (smokerStat fs)" using assms(1,2,5) by (auto simp: wf_stat_def)
  show "\<exists>p' fs'. run rnd sid [Ret 0, Ret 0, Ret 0, Ret 0, Ret 0] (q, fs) = Some (p', fs') \<and>
               pc p' = Exited EXIT_SUCCESS \<and>
               drop (length (trace q)) (trace p') =
                 [SemDown Mutex, SaveState fs', SemUp Mutex, ShmemDettach] \<and>
               smokerStat fs' ! nat sid = CLOSING_S"
    unfolding loop_exit [OF assms(4) c assms(1,2,5)] using l by simp
next
  assume c: "\<not> closing fs"
  define fsc where "fsc = fs\<lparr>ingredients := consume sid (ingredients fs)\<rparr>"
  define fs1 where
    "fs1 = (env_writes ws1 fsc)\<lparr>smokerStat := (smokerStat (env_writes ws1 fsc))[nat sid := ROLLING]\<rparr>"
  define fs2 where
    "fs2 = (env_writes ws2 fs1)\<lparr>smokerStat := (smokerStat (env_writes ws2 fs1))[nat sid := SMOKING]\<rparr>"
  define fs3 where
    "fs3 = fs2\<lparr>nCigarettes := (nCigarettes fs2)[nat sid := nCigarettes fs2 ! nat sid + 1]\<rparr>"
  have r: "ret q" using assms(3,4) by (rule woken_ret)
  have "wf_stat fsc" using assms(5) by (simp add: fsc_def wf_stat_def consume_length)
  then have w1: "wf_stat (env_writes ws1 fsc)" by (simp add: wf_env_writes)
  then have "wf_stat fs1" by (simp add: fs1_def wf_stat_def)
  then have w2: "wf_stat (env_writes ws2 fs1)" by (simp add: wf_env_writes)
  have n: "nat sid < 3" using assms(1,2) by (simp add: NUMSMOKERS_def)
  from loop_body [OF assms(4) c r assms(1,2,5) fsc_def fs1_def fs2_def fs3_def, of rnd]
  obtain p1 p' where
    "run rnd sid [Ret 0, Ret 0, Ret 0, Ret 0] (q, fs) = Some (p1, fsc)" "pc p1 = Roll L215"
    "run rnd sid
       ([Ret 0, Ret 0, Ret 0, Ret 0] @
        [Ret 0, Env ws1, Ret 0, Ret 0, Ret 0, Ret 0, Ret 0, Env ws2, Ret 0, Ret 0, Ret 0, Ret 0, Ret 0])
       (q, fs) = Some (p', fs3)"
    "pc p' = Wait L154"
    "snapshots (drop (length (trace q)) (trace p')) = [fsc, fs1, fs2, fs3]"
    by blast
  moreover have "smokerStat fs1 ! nat sid = ROLLING"
    using w1 n by (simp add: fs1_def wf_stat_def NUMSMOKERS_def)
  moreover have "smokerStat fs2 ! nat sid = SMOKING"
    using w2 n by (simp add: fs2_def wf_stat_def NUMSMOKERS_def)
  moreover have "nCigarettes fs3 ! nat sid = nCigarettes fs2 ! nat sid + 1"
    using w2 n by (simp add: fs3_def fs2_def wf_stat_def NUMSMOKERS_def)
  ultimately show "\<exists>p1 fsc p' fs1 fs2 fs3.
               run rnd sid [Ret 0, Ret 0, Ret 0, Ret 0] (q, fs) = Some (p1, fsc) \<and> pc p1 = Roll L215 \<and>
               run rnd sid
                 ([Ret 0, Ret 0, Ret 0, Ret 0] @
                  [Ret 0, Env ws1, Ret 0, Ret 0, Ret 0, Ret 0, Ret 0,
                   Env ws2, Ret 0, Ret 0, Ret 0, Ret 0, Ret 0])
                 (q, fs) = Some (p', fs3) \<and>
               pc p' = Wait L154 \<and>
               snapshots (drop (length (trace q)) (trace p')) = [fsc, fs1, fs2, fs3] \<and>
               smokerStat fs1 ! nat sid = ROLLING \<and> smokerStat fs2 ! nat sid = SMOKING \<and>
               nCigarettes fs3 ! nat sid = nCigarettes fs2 ! nat sid + 1"
    by blast
next
  fix ms p0 s0 p1 s1
  assume a: "pc p0 = Wait L154 \<and> run rnd sid ms (p0, s0) = Some (p1, s1) \<and>
            (pc p1 = Main109 \<or> pc p1 = Exited EXIT_SUCCESS)"
  then have "exit_inv sid p0" by simp
  with a have "exit_inv sid p1" using run_exit_inv by blast
  with a show "closing_logged sid (trace p1)" by auto
qed

theorem main_loop_witness:
  "run (\<lambda>k. 0) 1 [Ret 0, Ret 0, Ret 0, Ret 0, Ret 0] (woken1, stat0\<lparr>closing := True\<rparr>) =
     Some (exited1, stat0\<lparr>closing := True, smokerStat := [WAITING_2ING, CLOSING_S, WAITING_2ING]\<rparr>) \<and>
   closing_logged 1 (trace exited1)"
  using main_loop [of 1 "\<lambda>k. 0" "[WriteClosing True]" proc0 stat0 woken1 "stat0\<lparr>closing := True\<rparr>"]
  by (simp add: proc0_def stat0_def woken1_def exited1_def NUMSMOKERS_def wf_stat_def checked_def
      set_stat_def store_def env_writes_def Let_def EXIT_SUCCESS_def closing_logged_def)

subsection \<open>The closing flag during a cycle\<close>

lemma env_set_closing: "env_writes (set_closing b) s = s\<lparr>closing := closing s \<or> b\<rparr>"
  by (simp add: env_writes_def set_closing_def)

text \<open>
  A call of \<open>waitForIngredients\<close> in which every semaphore operation succeeds; \<open>ws1\<close>
  is what the other processes write before the smoker gets the mutex for the first time,
  \<open>ws2\<close> what they write until it gets the mutex again after the wake-up.
\<close>

lemma wait_call:
  assumes "pc q = Wait L154" and "0 \<le> sid" and "sid < NUMSMOKERS" and "wf_stat fs"
    and "fs1 = (env_writes ws1 fs)\<lparr>smokerStat := (smokerStat (env_writes ws1 fs))[nat sid := WAITING_2ING]\<rparr>"
    and "fs2 = env_writes ws2 fs1"
    and "fs3 = (if closing fs2 then fs2\<lparr>smokerStat := (smokerStat fs2)[nat sid := CLOSING_S]\<rparr>
                else fs2\<lparr>ingredients := consume sid (ingredients fs2)\<rparr>)"
  shows "\<exists>p' es. run rnd sid [Env ws1, Ret 0, Ret 0, Ret 0, Ret 0, Env ws2, Ret 0, Ret 0, Ret 0] (q, fs) =
             Some (p', fs3) \<and>
           pc p' = Loop103 \<and> ret p' = (\<not> closing fs2) \<and> trace p' = trace q @ es \<and>
           snapshots es = [fs1, fs3]"
proof -
  define q1 where
    "q1 = q\<lparr>pc := Wait L177, ret := True,
            trace := trace q @ [SemDown Mutex, SaveState fs1, SemUp Mutex, SemDown (Wait2Ings sid)]\<rparr>"
  have w0: "wf_stat (env_writes ws1 fs)" using assms(4) by (simp add: wf_env_writes)
  then have l0: "sid < int (length (smokerStat (env_writes ws1 fs)))"
    using assms(3) by (simp add: wf_stat_def)
  have "wf_stat fs1" using w0 by (simp add: assms(5) wf_stat_def)
  then have "wf_stat fs2" by (simp add: assms(6) wf_env_writes)
  then have l2: "sid < int (length (smokerStat fs2))" using assms(3) by (simp add: wf_stat_def)
  have r1: "run rnd sid [Env ws1, Ret 0, Ret 0, Ret 0, Ret 0, Env ws2] (q, fs) = Some (q1, fs2)"
    using assms(1,2,3) l0
    by (simp add: q1_def assms(5,6) checked_def set_stat_def store_def Let_def)
  have pq: "pc q1 = Wait L177" by (simp add: q1_def)
  show ?thesis
  proof (cases "closing fs2")
    case True
    have "run rnd sid ([Env ws1, Ret 0, Ret 0, Ret 0, Ret 0, Env ws2] @ [Ret 0, Ret 0, Ret 0]) (q, fs) =
        Some (q1\<lparr>pc := Loop103, ret := False,
             trace := trace q1 @ [SemDown Mutex, SaveState fs3, SemUp Mutex]\<rparr>, fs3)"
      using run_split [OF r1 wait_return_closing [OF pq True assms(2) l2, of rnd]] True
      by (simp add: assms(7))
    then show ?thesis
      using True
      by (intro exI [of _ "q1\<lparr>pc := Loop103, ret := False,
             trace := trace q1 @ [SemDown Mutex, SaveState fs3, SemUp Mutex]\<rparr>"]
          exI [of _ "[SemDown Mutex, SaveState fs1, SemUp Mutex, SemDown (Wait2Ings sid),
             SemDown Mutex, SaveState fs3, SemUp Mutex]"])
        (simp add: q1_def)
  next
    case False
    have "run rnd sid ([Env ws1, Ret 0, Ret 0, Ret 0, Ret 0, Env ws2] @ [Ret 0, Ret 0, Ret 0]) (q, fs) =
        Some (q1\<lparr>pc := Loop103,
             trace := trace q1 @ [SemDown Mutex, SaveState fs3, SemUp Mutex]\<rparr>, fs3)"
      using run_split [OF r1 wait_return [OF pq False, of rnd sid]] False
      by (simp add: assms(7))
    then show ?thesis
      using False
      by (intro exI [of _ "q1\<lparr>pc := Loop103,
             trace := trace q1 @ [SemDown Mutex, SaveState fs3, SemUp Mutex]\<rparr>"]
          exI [of _ "[SemDown Mutex, SaveState fs1, SemUp Mutex, SemDown (Wait2Ings sid),
             SemDown Mutex, SaveState fs3, SemUp Mutex]"])
        (simp add: q1_def)
  qed
qed

lemma step_ignores_closing:
  assumes "(\<exists>l. pc p = Roll l) \<or> (\<exists>l. pc p = Smoke l)"
  shows "same_but_closing (smoker_step rnd r sid (p, s\<lparr>closing := b\<rparr>)) (smoker_step rnd r sid (p, s)) \<and>
         closing (snd (smoker_step rnd r sid (p, s\<lparr>closing := b\<rparr>))) = b"
proof -
  from assms consider l where "pc p = Roll l" | l where "pc p = Smoke l" by blast
  then show ?thesis
  proof cases
    case 1
    then show ?thesis
      by (cases l)
        (auto simp: same_but_closing_def checked_def set_stat_def store_def sleep_def Let_def
          split_beta split: option.splits)
  next
    case 2
    then show ?thesis
      by (cases l)
        (auto simp: same_but_closing_def checked_def set_stat_def store_def sleep_def Let_def
          split_beta split: option.splits)
  qed
qed

text \<open>
  C10: once \<open>waitForIngredients (id)\<close> has returned true, \<open>rollingCigarette (id)\<close> and
  \<open>smoke (id)\<close> never read the closing flag: each of their steps does the same, whatever
  the flag is, and leaves the flag as it is (only the snapshots handed to \<open>saveState\<close>
  carry it).  A flag set by another process before the rolling (\<open>b1\<close>) or between the
  rolling and the smoking (\<open>b2\<close>) does not stop the cycle: the ROLLING, SMOKING and
  incremented snapshots are saved, and the flag is first acted upon by the next call of
  \<open>waitForIngredients\<close> (as is a flag set at its start, \<open>b3\<close>, or while the smoker is
  blocked, \<open>b4\<close>), which then returns false.
\<close>

theorem closing_flag_seen_at_next_wait:
  assumes "0 \<le> sid" and "sid < NUMSMOKERS" and "wf_stat fs" and "pc q = Roll L215"
  shows "(\<forall>r b p s. (\<exists>l. pc p = Roll l) \<or> (\<exists>l. pc p = Smoke l) \<longrightarrow>
            same_but_closing (smoker_step rnd r sid (p, s\<lparr>closing := b\<rparr>))
              (smoker_step rnd r sid (p, s)) \<and>
            closing (snd (smoker_step rnd r sid (p, s\<lparr>closing := b\<rparr>))) = b) \<and>
         (\<exists>p' fs'.
            run rnd sid
              ([Ret 0, Env (set_closing b1), Ret 0, Ret 0, Ret 0, Ret 0, Ret 0,
                Env (set_closing b2), Ret 0, Ret 0, Ret 0, Ret 0, Ret 0] @
               [Env (set_closing b3), Ret 0, Ret 0, Ret 0, Ret 0,
                Env (set_closing b4), Ret 0, Ret 0, Ret 0])
              (q, fs) = Some (p', fs') \<and>
            pc p' = Loop103 \<and>
            ret p' = (\<not> (closing fs \<or> b1 \<or> b2 \<or> b3 \<or> b4)) \<and>
            closing fs' = (closing fs \<or> b1 \<or> b2 \<or> b3 \<or> b4) \<and>
            nCigarettes fs' ! nat sid = nCigarettes fs ! nat sid + 1 \<and>
            map (\<lambda>s. smokerStat s ! nat sid) (snapshots (drop (length (trace q)) (trace p'))) =
              [ROLLING, SMOKING, SMOKING, WAITING_2ING,
               if closing fs \<or> b1 \<or> b2 \<or> b3 \<or> b4 then CLOSING_S else WAITING_2ING] \<and>
            map closing (snapshots (drop (length (trace q)) (trace p'))) =
              [closing fs \<or> b1, closing fs \<or> b1 \<or> b2, closing fs \<or> b1 \<or> b2,
               closing fs \<or> b1 \<or> b2 \<or> b3, closing fs \<or> b1 \<or> b2 \<or> b3 \<or> b4])"
proof (intro conjI allI impI)
  fix r b s and p :: proc
  assume "(\<exists>l. pc p = Roll l) \<or> (\<exists>l. pc p = Smoke l)"
  then have *: "same_but_closing (smoker_step rnd r sid (p, s\<lparr>closing := b\<rparr>))
              (smoker_step rnd r sid (p, s)) \<and>
            closing (snd (smoker_step rnd r sid (p, s\<lparr>closing := b\<rparr>))) = b"
    by (rule step_ignores_closing)
  from * show "same_but_closing (smoker_step rnd r sid (p, s\<lparr>closing := b\<rparr>))
              (smoker_step rnd r sid (p, s))" by (rule conjunct1)
  from * show "closing (snd (smoker_step rnd r sid (p, s\<lparr>closing := b\<rparr>))) = b"
    by (rule conjunct2)
next
  define fs1 where
    "fs1 = (env_writes (set_closing b1) fs)
       \<lparr>smokerStat := (smokerStat (env_writes (set_closing b1) fs))[nat sid := ROLLING]\<rparr>"
  define fs2 where
    "fs2 = (env_writes (set_closing b2) fs1)
       \<lparr>smokerStat := (smokerStat (env_writes (set_closing b2) fs1))[nat sid := SMOKING]\<rparr>"
  define fs3 where
    "fs3 = fs2\<lparr>nCigarettes := (nCigarettes fs2)[nat sid := nCigarettes fs2 ! nat sid + 1]\<rparr>"
  define fs4 where
    "fs4 = (env_writes (set_closing b3) fs3)
       \<lparr>smokerStat := (smokerStat (env_writes (set_closing b3) fs3))[nat sid := WAITING_2ING]\<rparr>"
  define fs5 where "fs5 = env_writes (set_closing b4) fs4"
  define fs6 where
    "fs6 = (if closing fs5 then fs5\<lparr>smokerStat := (smokerStat fs5)[nat sid := CLOSING_S]\<rparr>
            else fs5\<lparr>ingredients := consume sid (ingredients fs5)\<rparr>)"
  have n: "nat sid < 3" using assms(1,2) by (simp add: NUMSMOKERS_def)
  have l: "length (smokerStat fs) = 3" "length (nCigarettes fs) = 3"
    using assms(3) by (simp_all add: wf_stat_def NUMSMOKERS_def)
  have c1: "closing fs1 = (closing fs \<or> b1)" "smokerStat fs1 ! nat sid = ROLLING"
    "nCigarettes fs1 = nCigarettes fs" "length (smokerStat fs1) = 3"
    using n l by (simp_all add: fs1_def env_set_closing)
  have c2: "closing fs2 = (closing fs \<or> b1 \<or> b2)" "smokerStat fs2 ! nat sid = SMOKING"
    "nCigarettes fs2 = nCigarettes fs" "length (smokerStat fs2) = 3"
    using n c1 by (auto simp: fs2_def env_set_closing)
  have "wf_stat fs1" using assms(3) by (simp add: fs1_def wf_stat_def env_set_closing)
  then have "wf_stat fs2" by (simp add: fs2_def wf_stat_def env_set_closing)
  then have w3: "wf_stat fs3" by (simp add: fs3_def wf_stat_def)
  have c3: "closing fs3 = (closing fs \<or> b1 \<or> b2)" "smokerStat fs3 ! nat sid = SMOKING"
    "nCigarettes fs3 ! nat sid = nCigarettes fs ! nat sid + 1" "length (smokerStat fs3) = 3"
    using n c2 l by (auto simp: fs3_def)
  have c4: "closing fs4 = (closing fs \<or> b1 \<or> b2 \<or> b3)" "smokerStat fs4 ! nat sid = WAITING_2ING"
    "nCigarettes fs4 = nCigarettes fs3" "length (smokerStat fs4) = 3"
    using n c3 by (auto simp: fs4_def env_set_closing)
  have c5: "closing fs5 = (closing fs \<or> b1 \<or> b2 \<or> b3 \<or> b4)" "smokerStat fs5 ! nat sid = WAITING_2ING"
    "nCigarettes fs5 = nCigarettes fs3" "length (smokerStat fs5) = 3"
    using n c4 by (auto simp: fs5_def env_set_closing)
  have c6: "closing fs6 = (closing fs \<or> b1 \<or> b2 \<or> b3 \<or> b4)"
    "smokerStat fs6 ! nat sid = (if closing fs \<or> b1 \<or> b2 \<or> b3 \<or> b4 then CLOSING_S else WAITING_2ING)"
    "nCigarettes fs6 = nCigarettes fs3"
    using n c5 by (auto simp: fs6_def)
  from cycle_run [OF assms(4,1,2,3) fs1_def fs2_def fs3_def, of rnd] obtain p1 es1 where
    r1: "run rnd sid
           [Ret 0, Env (set_closing b1), Ret 0, Ret 0, Ret 0, Ret 0, Ret 0,
            Env (set_closing b2), Ret 0, Ret 0, Ret 0, Ret 0, Ret 0]
           (q, fs) = Some (p1, fs3)"
    and p1: "pc p1 = Wait L154" "trace p1 = trace q @ es1" "snapshots es1 = [fs1, fs2, fs3]"
    by blast
  from wait_call [OF p1(1) assms(1,2) w3 fs4_def fs5_def fs6_def, of rnd] obtain p2 es2 where
    r2: "run rnd sid
           [Env (set_closing b3), Ret 0, Ret 0, Ret 0, Ret 0, Env (set_closing b4), Ret 0, Ret 0, Ret 0]
           (p1, fs3) = Some (p2, fs6)"
    and p2: "pc p2 = Loop103" "ret p2 = (\<not> closing fs5)" "trace p2 = trace p1 @ es2"
      "snapshots es2 = [fs4, fs6]"
    by blast
  have s: "snapshots (drop (length (trace q)) (trace p2)) = [fs1, fs2, fs3, fs4, fs6]"
    using p1 p2 by (simp add: snapshots_append)
  show "\<exists>p' fs'.
            run rnd sid
              ([Ret 0, Env (set_closing b1), Ret 0, Ret 0, Ret 0, Ret 0, Ret 0,
                Env (set_closing b2), Ret 0, Ret 0, Ret 0, Ret 0, Ret 0] @
               [Env (set_closing b3), Ret 0, Ret 0, Ret 0, Ret 0,
                Env (set_closing b4), Ret 0, Ret 0, Ret 0])
              (q, fs) = Some (p', fs') \<and>
            pc p' = Loop103 \<and>
            ret p' = (\<not> (closing fs \<or> b1 \<or> b2 \<or> b3 \<or> b4)) \<and>
            closing fs' = (closing fs \<or> b1 \<or> b2 \<or> b3 \<or> b4) \<and>
            nCigarettes fs' ! nat sid = nCigarettes fs ! nat sid + 1 \<and>
            map (\<lambda>s. smokerStat s ! nat sid) (snapshots (drop (length (trace q)) (trace p'))) =
              [ROLLING, SMOKING, SMOKING, WAITING_2ING,
               if closing fs \<or> b1 \<or> b2 \<or> b3 \<or> b4 then CLOSING_S else WAITING_2ING] \<and>
            map closing (snapshots (drop (length (trace q)) (trace p'))) =
              [closing fs \<or> b1, closing fs \<or> b1 \<or> b2, closing fs \<or> b1 \<or> b2,
               closing fs \<or> b1 \<or> b2 \<or> b3, closing fs \<or> b1 \<or> b2 \<or> b3 \<or> b4]"
    apply (intro exI [of _ p2] exI [of _ fs6] conjI)
          apply (rule run_split [OF r1 r2])
         apply (rule p2(1))
        apply (simp add: p2(2) c5(1))
       apply (simp add: c6(1))
      apply (simp add: c6(3) c3(3))
     apply (simp only: s list.map c1 c2 c3 c4 c6)
    apply (simp only: s list.map c1 c2 c3 c4 c6)
    done
qed

theorem closing_flag_seen_at_next_wait_witness:
  "\<exists>p'. run draws_half 1
     ([Ret 0, Env (set_closing True), Ret 0, Ret 0, Ret 0, Ret 0, Ret 0,
       Env (set_closing False), Ret 0, Ret 0, Ret 0, Ret 0, Ret 0] @
      [Env (set_closing False), Ret 0, Ret 0, Ret 0, Ret 0,
       Env (set_closing False), Ret 0, Ret 0, Ret 0])
     (rolling1, stat0) =
     Some (p', stat0\<lparr>closing := True, smokerStat := [WAITING_2ING, CLOSING_S, WAITING_2ING],
             nCigarettes := [0, 1, 0]\<rparr>) \<and>
     pc p' = Loop103 \<and> \<not> ret p'"
  using closing_flag_seen_at_next_wait [of 1 stat0 rolling1 draws_half True False False False]
  by (simp add: stat0_def rolling1_def checked_def set_stat_def store_def sleep_def
      env_writes_def set_closing_def NUMSMOKERS_def wf_stat_def Let_def normalRand_half)

subsection \<open>The check of the smoker id\<close>

lemma to_int_minus_1: "to_int (- 1) = - 1"
  unfolding to_int_def by code_simp

lemma to_int_2_32: "to_int 4294967296 = 0"
  by (simp add: to_int_def)

lemma to_int_1234: "to_int 1234 = 1234"
  by (simp add: to_int_def)

text \<open>What the check does reject: a trailing character, and an \<open>n\<close> of 3 or more.\<close>

lemma main_rejects:
  assumes "argc a = 5" and "id_rest a \<noteq> [] \<or> NUMSMOKERS \<le> to_int (id_value a)"
  shows "main_start a rsem rshm ratt =
     ([Fprintf ''Smoker process identification is wrong!''], Inl EXIT_FAILURE)"
  using assms by (auto simp: main_start_def Let_def)

text \<open>
  C7 (main rejects every identifier outside \<open>[0, NUMSMOKERS)\<close>, negative ones included,
  before any IPC operation) does not hold of the code.  For \<open>argv[1] = "-1"\<close>, \<open>strtol\<close>
  returns -1 and leaves nothing unparsed; the cast to \<open>unsigned int\<close> is undone by the
  assignment to the \<open>int n\<close>, and \<open>-1 >= NUMSMOKERS\<close> is false: main connects to the
  semaphore set and to the shared region and starts the life cycle of smoker -1, whose
  first store, \<open>smokerStat[-1]\<close>, lies outside the array.  Likewise \<open>4294967296\<close> is
  taken for smoker 0.
\<close>

theorem main_accepts_negative_id:
  "main_start \<lparr>argc = 5, id_value = - 1, id_rest = [], key_value = 1234, key_rest = []\<rparr> 0 0 0 =
     ([SemConnect 1234, ShmemConnect 1234, ShmemAttach], Inr (- 1)) \<and>
   run draws_half (- 1) [Ret 0, Ret 0] (proc0, stat0) =
     Some (proc0\<lparr>pc := UndefinedBehaviour, ret := True, trace := [SemDown Mutex]\<rparr>, stat0) \<and>
   main_start \<lparr>argc = 5, id_value = 4294967296, id_rest = [], key_value = 1234, key_rest = []\<rparr> 0 0 0 =
     ([SemConnect 1234, ShmemConnect 1234, ShmemAttach], Inr 0)"
  by (simp add: main_start_def to_int_minus_1 to_int_2_32 to_int_1234 NUMSMOKERS_def proc0_def
      stat0_def checked_def set_stat_def store_def Let_def)

theorem main_accepts_negative_id_witness:
  "snd (main_start \<lparr>argc = 5, id_value = - 1, id_rest = [], key_value = 1234, key_rest = []\<rparr> 0 0 0) =
     Inr (- 1)"
  using main_accepts_negative_id by simp

subsection \<open>The ingredient counts of the simulation\<close>

lemma add_ingredients_eq:
  assumes "length xs = 3"
  shows "add_ingredients k xs =
     [if k = 0 then xs ! 0 else xs ! 0 + 1, if k = 1 then xs ! 1 else xs ! 1 + 1,
      if k = 2 then xs ! 2 else xs ! 2 + 1]"
proof -
  from assms obtain a b c where "xs = [a, b, c]"
    by (cases xs; simp) (metis (no_types) Suc_length_conv length_0_conv numeral_2_eq_2)
  then show ?thesis by (auto simp: add_ingredients_def numeral_3_eq_3)
qed

lemma initial_supplied: "initial s \<Longrightarrow> supplied s"
proof -
  assume a: "initial s"
  then have l: "length (ingredients (shm s)) = 3" by (simp add: initial_def wf_stat_def)
  then obtain a0 a1 a2 where x: "ingredients (shm s) = [a0, a1, a2]"
    by (cases "ingredients (shm s)"; simp) (metis (no_types) Suc_length_conv length_0_conv numeral_2_eq_2)
  obtain p0 p1 p2 where p: "smokers s = [p0, p1, p2]" "pc p0 = Wait L154" "pc p1 = Wait L154" "pc p2 = Wait L154"
    using a by (auto simp: initial_def)
  show ?thesis
    using a x p by (simp add: initial_def supplied_def tok_def)
qed


text \<open>What a step of a smoker does to the wake-up signals and to the ingredient counts.\<close>

lemma smoker_step_summary:
  assumes "smoker_step rnd r sid (p, fs) = (p', fs')"
    and "sem_effects (drop (length (trace p)) (trace p')) ss = Some ss'"
  shows "closing fs' = closing fs \<and> wf_stat fs' = wf_stat fs \<and>
    ((pc p = Wait L171 \<and> pc p' = Wait L177 \<and> 0 \<le> sid \<and> 0 < wait2Ings ss ! nat sid \<and>
        wait2Ings ss' = (wait2Ings ss)[nat sid := wait2Ings ss ! nat sid - 1] \<and>
        ingredients fs' = ingredients fs) \<or>
     (pc p = Wait L177 \<and> pc p' = Wait L183 \<and> wait2Ings ss' = wait2Ings ss \<and>
        ingredients fs' = ingredients fs) \<or>
     (pc p = Wait L183 \<and> \<not> closing fs \<and> pc p' = Wait L197 \<and> wait2Ings ss' = wait2Ings ss \<and>
        ingredients fs' = consume sid (ingredients fs)) \<or>
     (pc p' \<noteq> Wait L177 \<and> pc p' \<noteq> Wait L183 \<and> wait2Ings ss' = wait2Ings ss \<and>
        ingredients fs' = ingredients fs))"
proof (cases "pc p")
  case (Wait l)
  then show ?thesis
    using assms
    by (cases l)
      (auto simp: checked_def set_stat_def store_def Let_def wf_stat_def consume_length
        split: if_splits option.splits)
next
  case (Roll l)
  then show ?thesis
    using assms
    by (cases l)
      (auto simp: checked_def set_stat_def store_def sleep_def Let_def split_beta wf_stat_def
        split: if_splits option.splits)
next
  case (Smoke l)
  then show ?thesis
    using assms
    by (cases l)
      (auto simp: checked_def set_stat_def store_def sleep_def Let_def split_beta wf_stat_def
        split: if_splits option.splits)
qed (use assms in \<open>auto simp: checked_def split: if_splits option.splits\<close>)


lemma supplied_smoker:
  assumes "supplied s" and "k < length (smokers s)"
    and "smoker_step rnd r (int k) (smokers s ! k, shm s) = (p', fs')"
    and "sem_effects (drop (length (trace (smokers s ! k))) (trace p')) (semset s) = Some ss'"
  shows "supplied (s\<lparr>shm := fs', semset := ss', smokers := (smokers s)[k := p']\<rparr>)"
proof -
  have l: "length (smokers s) = 3" "length (wait2Ings (semset s)) = 3"
    "length (ingredients (shm s)) = 3"
    using assms(1) by (simp_all add: supplied_def wf_stat_def)
  from assms(2) l(1) consider "k = 0" | "k = 1" | "k = 2" by linarith
  note k = this
  note sm = smoker_step_summary [OF assms(3,4)]
  from sm have c: "closing fs' = closing (shm s)" and w: "wf_stat fs' = wf_stat (shm s)" by simp_all
  from sm consider
      (wake) "pc (smokers s ! k) = Wait L171" "pc p' = Wait L177" "0 < wait2Ings (semset s) ! k"
        "wait2Ings ss' = (wait2Ings (semset s))[k := wait2Ings (semset s) ! k - 1]"
        "ingredients fs' = ingredients (shm s)"
    | (lock) "pc (smokers s ! k) = Wait L177" "pc p' = Wait L183"
        "wait2Ings ss' = wait2Ings (semset s)" "ingredients fs' = ingredients (shm s)"
    | (take) "pc (smokers s ! k) = Wait L183" "\<not> closing (shm s)" "pc p' = Wait L197"
        "wait2Ings ss' = wait2Ings (semset s)"
        "ingredients fs' = consume (int k) (ingredients (shm s))"
    | (other) "pc p' \<noteq> Wait L177" "pc p' \<noteq> Wait L183"
        "wait2Ings ss' = wait2Ings (semset s)" "ingredients fs' = ingredients (shm s)"
    by auto
  then show ?thesis
  proof cases
    case wake
    from k show ?thesis
      by cases (use assms(1) l wake c w in \<open>auto simp: supplied_def tok_def\<close>)
  next
    case lock
    from k show ?thesis
      by cases (use assms(1) l lock c w in \<open>auto simp: supplied_def tok_def\<close>)
  next
    case take
    from k show ?thesis
      by cases (use assms(1) l take c w in \<open>auto simp: supplied_def tok_def consume_eq\<close>)
  next
    case other
    from k show ?thesis
      by cases (use assms(1) l other c w in \<open>auto simp: supplied_def tok_def\<close>)
  qed
qed


lemma supplied_supply:
  assumes "supplied s" and "k < 3" and "\<not> closing (shm s)"
  shows "supplied (s\<lparr>shm := (shm s)\<lparr>ingredients := add_ingredients k (ingredients (shm s))\<rparr>,
                   semset := sem_up (Wait2Ings (int k)) (semset s)\<rparr>)"
proof -
  have l: "length (wait2Ings (semset s)) = 3" "length (ingredients (shm s)) = 3"
    using assms(1) by (simp_all add: supplied_def wf_stat_def)
  from assms(2) consider "k = 0" | "k = 1" | "k = 2" by linarith
  then show ?thesis
    by cases
      (use assms(1,3) l in \<open>auto simp: supplied_def tok_def wf_stat_def add_ingredients_eq\<close>)
qed

lemma supplied_step:
  assumes "supplied s" and "sys_step rnd a s = Some s'"
  shows "supplied s'"
proof (cases a)
  case (Smoker k r)
  obtain p' fs' where st: "smoker_step (rnd k) r (int k) (smokers s ! k, shm s) = (p', fs')"
    by (cases "smoker_step (rnd k) r (int k) (smokers s ! k, shm s)")
  note e = assms(2) [unfolded Smoker sys_step.simps st prod.case]
  from e have k: "k < length (smokers s)" by (simp split: if_splits)
  with e obtain ss' where
    se: "sem_effects (drop (length (trace (smokers s ! k))) (trace p')) (semset s) = Some ss'"
    and s': "s' = s\<lparr>shm := fs', semset := ss', smokers := (smokers s)[k := p']\<rparr>"
    by (auto split: option.splits)
  show ?thesis unfolding s' using assms(1) k st se by (rule supplied_smoker)
next
  case (Supply k)
  with assms(2) have g: "k < 3" "\<not> closing (shm s)"
    and s': "s' = s\<lparr>shm := (shm s)\<lparr>ingredients := add_ingredients k (ingredients (shm s))\<rparr>,
                   semset := sem_up (Wait2Ings (int k)) (semset s)\<rparr>"
    by (auto split: if_splits)
  show ?thesis unfolding s' using assms(1) g by (rule supplied_supply)
next
  case Collect
  with assms(2) obtain ss where "s' = s\<lparr>semset := ss\<rparr>" "wait2Ings ss = wait2Ings (semset s)"
    by (auto split: option.splits if_splits)
  then show ?thesis using assms(1) by (simp add: supplied_def tok_def)
next
  case Close
  with assms(2) have "s' = s\<lparr>shm := (shm s)\<lparr>closing := True\<rparr>\<rparr>" by (auto split: if_splits)
  then show ?thesis using assms(1) by (simp add: supplied_def wf_stat_def)
next
  case (Wake k)
  with assms(2) have "closing (shm s)" "s' = s\<lparr>semset := sem_up (Wait2Ings (int k)) (semset s)\<rparr>"
    by (auto split: if_splits)
  then show ?thesis using assms(1) by (simp add: supplied_def)
qed

lemma supplied_run: "sys_run rnd as s = Some s' \<Longrightarrow> supplied s \<Longrightarrow> supplied s'"
proof (induction as arbitrary: s)
  case Nil
  then show ?case by simp
next
  case (Cons a as)
  from Cons.prems(1) obtain s1 where s1: "sys_step rnd a s = Some s1" "sys_run rnd as s1 = Some s'"
    by (simp split: option.splits)
  have "supplied s1" using Cons.prems(2) s1(1) by (rule supplied_step)
  with s1(2) show ?case by (rule Cons.IH)
qed

text \<open>
  C6: in every state that the simulation reaches from an initial state, by any
  interleaving of steps of the three smokers and of the agent, the count of every kind of
  ingredient is at least 0: the decrements of the smokers never drive a count negative.
\<close>

theorem ingredients_never_negative:
  assumes "initial s0" and "sys_run rnd as s0 = Some s"
  shows "length (ingredients (shm s)) = 3 \<and> (\<forall>n<3. 0 \<le> ingredients (shm s) ! n)"
proof -
  have "supplied s0" using assms(1) by (rule initial_supplied)
  with assms(2) have i: "supplied s" by (rule supplied_run)
  have "0 \<le> ingredients (shm s) ! n" if "n < 3" for n
  proof -
    from that consider "n = 0" | "n = 1" | "n = 2" by linarith
    then show ?thesis by cases (use i in \<open>simp_all add: supplied_def\<close>)
  qed
  then show ?thesis using i by (simp add: supplied_def wf_stat_def)
qed

theorem ingredients_never_negative_witness:
  "initial system0 \<and>
   (\<exists>s. sys_run (\<lambda>k. draws_half)
          [Smoker 1 0, Smoker 1 0, Smoker 1 0, Supply 1, Smoker 1 0, Smoker 1 0, Smoker 1 0, Smoker 1 0]
          system0 = Some s \<and>
        ingredients (shm s) = [0, 0, 0] \<and> pc (smokers s ! 1) = Loop103 \<and> ret (smokers s ! 1))"
proof -
  have i: "initial system0"
    by (simp add: initial_def system0_def stat0_def proc0_def wf_stat_def NUMSMOKERS_def)
  have r: "sys_run (\<lambda>k. draws_half)
          [Smoker 1 0, Smoker 1 0, Smoker 1 0, Supply 1, Smoker 1 0, Smoker 1 0, Smoker 1 0, Smoker 1 0]
          system0 =
        Some (system0\<lparr>smokers := [proc0, rolling1\<lparr>pc := Loop103\<rparr>, proc0]\<rparr>)"
    by (simp add: system0_def stat0_def proc0_def rolling1_def checked_def set_stat_def store_def
        NUMSMOKERS_def Let_def add_ingredients_def consume_def numeral_3_eq_3)
  show ?thesis
    using ingredients_never_negative [OF i r] i r
    by (simp add: system0_def stat0_def rolling1_def)
qed

end
